theory Spec2Isabelle
  imports Main
begin

section \<open>Values decoded from JSON, as Python sees them\<close>

text \<open>
  The collector never fixes a schema for what the remote side returns: whatever
  \<^verbatim>\<open>response.json()\<close> decodes is passed on. The embedding keeps that dynamism.
  Python \<^verbatim>\<open>str\<close> values are represented by their UTF-8 bytes; non-integer numbers are
  not represented. A decoded object keeps its keys in order, each key once.
\<close>

datatype json =
    JNull
  | JBool bool
  | JInt int
  | JStr string
  | JArr "json list"
  | JObj "(string \<times> json) list"

text \<open>The exceptions that the collection code lets escape.\<close>

datatype py_error = AttributeError | TypeError

text \<open>Truth value of a decoded value (\<^verbatim>\<open>if data:\<close>, \<^verbatim>\<open>if not data:\<close>).\<close>

fun truthy :: "json \<Rightarrow> bool" where
  "truthy JNull = False"
| "truthy (JBool b) = b"
| "truthy (JInt i) = (i \<noteq> 0)"
| "truthy (JStr s) = (s \<noteq> [])"
| "truthy (JArr xs) = (xs \<noteq> [])"
| "truthy (JObj kvs) = (kvs \<noteq> [])"

text \<open>Truth value of an optional string (\<^verbatim>\<open>None\<close> and \<^verbatim>\<open>''\<close> are false).\<close>

fun truthy_str :: "string option \<Rightarrow> bool" where
  "truthy_str None = False"
| "truthy_str (Some t) = (t \<noteq> [])"

text \<open>\<^verbatim>\<open>d.get(k, dflt)\<close> on a dict, and on an arbitrary decoded value.\<close>

definition dict_get :: "(string \<times> json) list \<Rightarrow> string \<Rightarrow> json \<Rightarrow> json" where
  "dict_get d k dflt = (case map_of d k of None \<Rightarrow> dflt | Some v \<Rightarrow> v)"

fun py_get :: "json \<Rightarrow> string \<Rightarrow> json \<Rightarrow> py_error + json" where
  "py_get (JObj d) k dflt = Inr (dict_get d k dflt)"
| "py_get _ k dflt = Inl AttributeError"

text \<open>\<^verbatim>\<open>d[k] = v\<close> on a dict: an existing key keeps its place, a new key goes last.\<close>

fun dict_set :: "(string \<times> json) list \<Rightarrow> string \<Rightarrow> json \<Rightarrow> (string \<times> json) list" where
  "dict_set [] k v = [(k, v)]"
| "dict_set ((k', v') # d) k v = (if k' = k then (k, v) # d else (k', v') # dict_set d k v)"

text \<open>\<^verbatim>\<open>x[k] = v\<close> on an arbitrary decoded value: only a dict accepts a string key.\<close>

fun py_setitem :: "json \<Rightarrow> string \<Rightarrow> json \<Rightarrow> py_error + json" where
  "py_setitem (JObj d) k v = Inr (JObj (dict_set d k v))"
| "py_setitem _ k v = Inl TypeError"

text \<open>
  Iterating a decoded value (\<^verbatim>\<open>list.extend(items)\<close>): a list yields its elements, a
  string its characters (one code point each), a dict its keys; anything else is not
  iterable.
\<close>

definition is_continuation :: "char \<Rightarrow> bool" where
  "is_continuation c = (128 \<le> (of_char c :: nat) \<and> (of_char c :: nat) < 192)"

fun code_points :: "string \<Rightarrow> string list" where
  "code_points [] = []"
| "code_points [c] = [[c]]"
| "code_points (c # d # cs) =
     (case code_points (d # cs) of
        [] \<Rightarrow> [[c]]
      | g # gs \<Rightarrow> if is_continuation d then (c # g) # gs else [c] # g # gs)"

text \<open>\<^verbatim>\<open>t[:10]\<close>: the first ten characters of a string.\<close>

definition first_ten :: "string \<Rightarrow> string" where
  "first_ten t = concat (take 10 (code_points t))"

fun py_iter :: "json \<Rightarrow> py_error + json list" where
  "py_iter (JArr xs) = Inr xs"
| "py_iter (JStr s) = Inr (map JStr (code_points s))"
| "py_iter (JObj kvs) = Inr (map (\<lambda>kv. JStr (fst kv)) kvs)"
| "py_iter _ = Inl TypeError"

text \<open>\<^verbatim>\<open>v == 0\<close>: true of the integer zero and of \<^verbatim>\<open>False\<close>.\<close>

fun py_eq_zero :: "json \<Rightarrow> bool" where
  "py_eq_zero (JInt i) = (i = 0)"
| "py_eq_zero (JBool b) = (\<not> b)"
| "py_eq_zero _ = False"

text \<open>\<^verbatim>\<open>page >= v\<close> for an integer page: defined against numbers (and booleans) only.\<close>

fun py_ge :: "nat \<Rightarrow> json \<Rightarrow> py_error + bool" where
  "py_ge page (JInt n) = Inr (n \<le> int page)"
| "py_ge page (JBool b) = Inr ((if b then 1 else 0) \<le> page)"
| "py_ge page _ = Inl TypeError"


section \<open>Text: formatting, case folding, search, Base64\<close>

fun dec :: "nat \<Rightarrow> string" where
  "dec n = (if n < 10 then [''0123456789'' ! n]
            else dec (n div 10) @ [''0123456789'' ! (n mod 10)])"

declare dec.simps [simp del]

definition str_int :: "int \<Rightarrow> string" where
  "str_int i = (if i < 0 then CHR ''-'' # dec (nat (- i)) else dec (nat i))"

definition hex2 :: "nat \<Rightarrow> string" where
  "hex2 n = [''0123456789abcdef'' ! (n div 16), ''0123456789abcdef'' ! (n mod 16)]"

text \<open>
  \<^verbatim>\<open>repr\<close> of a string: quoted, with the quote, the backslash and the control
  characters escaped. Code points above 0x7F are copied (Python escapes the
  non-printable ones among them).
\<close>

definition repr_char :: "char \<Rightarrow> char \<Rightarrow> string" where
  "repr_char q c =
     (if c = q \<or> c = CHR 0x5C then [CHR 0x5C, c]
      else if c = CHR 0x09 then [CHR 0x5C, CHR ''t'']
      else if c = CHR 0x0A then [CHR 0x5C, CHR ''n'']
      else if c = CHR 0x0D then [CHR 0x5C, CHR ''r'']
      else if (of_char c :: nat) < 32 \<or> (of_char c :: nat) = 127
        then [CHR 0x5C, CHR ''x''] @ hex2 (of_char c)
      else [c])"

definition repr_str :: "string \<Rightarrow> string" where
  "repr_str s =
     (let q = (if CHR 0x27 \<in> set s \<and> CHR 0x22 \<notin> set s then CHR 0x22 else CHR 0x27)
      in q # concat (map (repr_char q) s) @ [q])"

fun join_comma :: "string list \<Rightarrow> string" where
  "join_comma [] = []"
| "join_comma [x] = x"
| "join_comma (x # y # ys) = x @ '', '' @ join_comma (y # ys)"

primrec py_repr :: "json \<Rightarrow> string" where
  "py_repr JNull = ''None''"
| "py_repr (JBool b) = (if b then ''True'' else ''False'')"
| "py_repr (JInt i) = str_int i"
| "py_repr (JStr s) = repr_str s"
| "py_repr (JArr xs) = ''['' @ join_comma (map py_repr xs) @ '']''"
| "py_repr (JObj kvs) =
     ''{'' @ join_comma (map (\<lambda>kr. repr_str (fst kr) @ '': '' @ snd kr)
                           (map (map_prod id py_repr) kvs)) @ ''}''"

text \<open>\<^verbatim>\<open>str(v)\<close>, as an f-string renders a decoded value.\<close>

definition py_str :: "json \<Rightarrow> string" where
  "py_str v = (case v of JStr s \<Rightarrow> s | _ \<Rightarrow> py_repr v)"

text \<open>An optional string in an f-string: \<^verbatim>\<open>None\<close> prints as its name.\<close>

definition opt_str :: "string option \<Rightarrow> string" where
  "opt_str x = (case x of None \<Rightarrow> ''None'' | Some t \<Rightarrow> t)"

text \<open>\<^verbatim>\<open>s.encode('ascii')\<close>: fails on any character outside ASCII.\<close>

definition encode_ascii :: "string \<Rightarrow> string option" where
  "encode_ascii t = (if list_all (\<lambda>c. (of_char c :: nat) < 128) t then Some t else None)"

text \<open>\<^verbatim>\<open>s.lower()\<close> on the ASCII letters, and \<^verbatim>\<open>pat in s\<close>.\<close>

definition lower_char :: "char \<Rightarrow> char" where
  "lower_char c =
     (if 65 \<le> (of_char c :: nat) \<and> (of_char c :: nat) \<le> 90
      then char_of ((of_char c :: nat) + 32) else c)"

fun contains :: "string \<Rightarrow> string \<Rightarrow> bool" where
  "contains pat [] = (pat = [])"
| "contains pat (c # cs) = (take (length pat) (c # cs) = pat \<or> contains pat cs)"

text \<open>\<^verbatim>\<open>base64.b64encode\<close> (RFC 4648, with padding).\<close>

definition b64_sym :: "nat \<Rightarrow> char" where
  "b64_sym n =
     ''ABCDEFGHIJKLMNOPQRSTUVWXYZabcdefghijklmnopqrstuvwxyz0123456789+/'' ! n"

fun b64encode :: "string \<Rightarrow> string" where
  "b64encode [] = []"
| "b64encode [a] =
     (let n = (of_char a :: nat) * 65536
      in [b64_sym (n div 262144), b64_sym (n div 4096 mod 64), CHR ''='', CHR ''=''])"
| "b64encode [a, b] =
     (let n = (of_char a :: nat) * 65536 + (of_char b :: nat) * 256
      in [b64_sym (n div 262144), b64_sym (n div 4096 mod 64), b64_sym (n div 64 mod 64),
          CHR ''=''])"
| "b64encode (a # b # c # rest) =
     (let n = (of_char a :: nat) * 65536 + (of_char b :: nat) * 256 + (of_char c :: nat)
      in [b64_sym (n div 262144), b64_sym (n div 4096 mod 64), b64_sym (n div 64 mod 64),
          b64_sym (n mod 64)] @ b64encode rest)"


section \<open>The remote side, the session and the record of what a run does\<close>

datatype http_method = GET | POST

text \<open>
  A request as it leaves the session: the \<^verbatim>\<open>Authorization\<close> header is the session's,
  the \<^verbatim>\<open>X-CSRF-Token\<close> header is the one of the call when it gives one and the
  session's otherwise; \<^verbatim>\<open>page\<close> and \<^verbatim>\<open>pageSize\<close> are the only query parameters used.
\<close>

record request =
  req_method :: http_method
  req_url :: string
  req_params :: "(nat \<times> nat) option"
  req_authorization :: "string option"
  req_csrf :: "string option"
  req_form :: "(string \<times> string option) list"

text \<open>
  A response, with what the code reads from it: the status, \<^verbatim>\<open>response.json()\<close>
  (\<open>None\<close> when decoding raises), the text, the final URL, the \<^verbatim>\<open>X-CSRF-Token\<close>
  header, and what \<^verbatim>\<open>re.findall\<close> returns on the text for the four patterns of the
  source (\<^verbatim>\<open>p_auth\<close>, \<^verbatim>\<open>csrf\<close>, \<^verbatim>\<open>authenticity_token\<close>, and \<^verbatim>\<open>csrf\<close> with a value of ten
  characters or more).
\<close>

record response =
  status_code :: int
  resp_json :: "json option"
  resp_text :: string
  resp_url :: string
  resp_csrf_header :: "string option"
  p_auth_matches :: "string list"
  csrf_matches :: "string list"
  auth_matches :: "string list"
  csrf_long_matches :: "string list"

text \<open>
  What one HTTP call meets: a response, a TLS failure
  (\<^verbatim>\<open>requests.exceptions.SSLError\<close>), or any other exception of the transport.
\<close>

datatype outcome = Resp response | RaiseSSL | RaiseOther

datatype level = INFO | WARNING | ERROR

datatype strategy = BasicAuth | WebLogin | JsonWS | OAuth2

datatype data_key =
    KStructuredContents
  | KContentFolders
  | KSitePages
  | KDocumentFolders
  | KFolderDocuments json

text \<open>
  The output files. The file of one folder's documents is named after the folder's id
  and its sanitised name; the embedding identifies it by the two values.
\<close>

datatype outfile =
    StructuredContentsFile
  | ContentFoldersFile
  | SitePagesFile
  | DocumentFoldersFile
  | FolderDocumentsFile json string
  | AllDocumentsFile
  | SummaryReportFile

text \<open>
  The log records of level INFO and above, one constructor for each logging call of the
  source, with the values it interpolates. The logger is configured at INFO, so the
  \<^verbatim>\<open>debug\<close> calls leave no record.
\<close>

datatype message =
    SslVerifyOff | SslVerifyOn
  | AuthStart | Trying strategy | StrategyWorked strategy | NoStrategyWorked
  | BasicSuccess json | WebLoginSuccess json | WebLoginSeemsOk | JsonWSSuccess
  | OAuth2Success
  | CsrfFromHeader string | CsrfFromContent string | CsrfNotFound
  | SslFailure | SslHint
  | Forbidden string | Unauthorized string | Reauthenticating
  | HttpFailure int string | AttemptFailed nat string
  | TestingAccess | ApiReachable string | NoApiReachable
  | CollectStart data_key | PageFailed data_key nat | Totals data_key json json
  | NoRecords data_key | PageCollected nat json nat | CollectDone data_key nat
  | Saved outfile nat | FolderProgress nat nat json
  | SummaryRule | SummaryTitle | SummaryCount string nat | SummaryDuration
  | SummarySaved
  | RunStart | AccessTestFailed | RunDone | RunError py_error

text \<open>What the command-line program prints, one constructor for each \<^verbatim>\<open>print\<close> call.\<close>

datatype printed =
    PMissingCredentials | PMissingCredentialsHint
  | PUsingCredentials string | PCsrfGiven string | PCsrfAutomatic
  | PSslOn | PSslOff
  | PNothingSelected | PNothingSelectedHint | PNothingSelectedHelp
  | PDryRun | PDryRunSettings | PDryRunValue string | PDryRunSelection
  | PDryRunSelected string | PDryRunDone
  | PStarting | PSelected nat nat
  | PCollecting data_key | PCollectingDocuments
  | PNoFoldersWarning | PNoFoldersHint
  | PReport | PFinished | PFinishedDir string | PFinishedReport string | PFinishedLogs
  | PExecutionError py_error | PTraceback

text \<open>
  The actions of a run, in order: HTTP calls with what they met, sleeps (whole seconds
  of back-off, and the half-second pause between pages), log records, files written,
  lines printed.
\<close>

datatype event =
    Http request outcome
  | Sleep nat
  | Pause
  | Log level message
  | WriteFile outfile json
  | Print printed

record stats =
  structured_contents :: nat
  content_folders :: nat
  site_pages :: nat
  document_folders :: nat
  documents :: nat
  errors :: nat

text \<open>
  The collector object. \<open>session_authorization\<close> and \<open>session_csrf\<close> are the two
  entries of \<^verbatim>\<open>session.headers\<close> the code assigns; \<open>remote\<close> is what the successive HTTP
  calls of the run will meet, in order (once it is used up, the transport fails).
\<close>

record collector =
  base_url :: string
  site_id :: string
  username :: "string option"
  password :: "string option"
  csrf_token :: "string option"
  output_dir :: string
  verify_ssl :: bool
  session_authorization :: "string option"
  session_csrf :: "string option"
  stats :: stats
  remote :: "outcome list"

abbreviation result_of :: "'a \<times> collector \<times> event list \<Rightarrow> 'a" where
  "result_of x \<equiv> fst x"

abbreviation state_of :: "'a \<times> collector \<times> event list \<Rightarrow> collector" where
  "state_of x \<equiv> fst (snd x)"

abbreviation events_of :: "'a \<times> collector \<times> event list \<Rightarrow> event list" where
  "events_of x \<equiv> snd (snd x)"

definition send :: "collector \<Rightarrow> request \<Rightarrow> outcome \<times> collector \<times> event list" where
  "send s rq =
     (case remote s of
        [] \<Rightarrow> (RaiseOther, s, [Http rq RaiseOther])
      | out # rest \<Rightarrow> (out, s\<lparr>remote := rest\<rparr>, [Http rq out]))"

definition session_get ::
  "collector \<Rightarrow> string \<Rightarrow> (nat \<times> nat) option \<Rightarrow> string option
     \<Rightarrow> outcome \<times> collector \<times> event list" where
  "session_get s url params csrf =
     send s \<lparr>req_method = GET, req_url = url, req_params = params,
             req_authorization = session_authorization s,
             req_csrf = (case csrf of Some t \<Rightarrow> Some t | None \<Rightarrow> session_csrf s),
             req_form = []\<rparr>"

definition session_post ::
  "collector \<Rightarrow> string \<Rightarrow> (string \<times> string option) list
     \<Rightarrow> outcome \<times> collector \<times> event list" where
  "session_post s url form =
     send s \<lparr>req_method = POST, req_url = url, req_params = None,
             req_authorization = session_authorization s,
             req_csrf = session_csrf s, req_form = form\<rparr>"


section \<open>Authentication\<close>

definition current_user_url :: "collector \<Rightarrow> string" where
  "current_user_url s = base_url s @ ''/api/jsonws/user/get-current-user''"

definition first_match :: "string list \<Rightarrow> string" where
  "first_match ms = (case ms of [] \<Rightarrow> [] | m # _ \<Rightarrow> m)"

text \<open>
  The user name read off a \<^verbatim>\<open>get-current-user\<close> answer: the answer has status 200, its
  body decodes, and \<^verbatim>\<open>user_data.get('screenName', 'N/A')\<close> does not raise (the decoded
  body is a dict).
\<close>

definition confirmed_user :: "response \<Rightarrow> json option" where
  "confirmed_user ur =
     (if status_code ur = 200 then
        (case resp_json ur of
           Some (JObj d) \<Rightarrow> Some (dict_get d ''screenName'' (JStr ''N/A''))
         | _ \<Rightarrow> None)
      else None)"

text \<open>
  \<^verbatim>\<open>try_basic_auth\<close>. The header is assigned after the credentials are encoded and
  before the probe; every exception is caught and makes the strategy fail.
\<close>

definition try_basic_auth :: "collector \<Rightarrow> bool \<times> collector \<times> event list" where
  "try_basic_auth s =
     (let e0 = [Log INFO (Trying BasicAuth)] in
      case encode_ascii (opt_str (username s) @ '':'' @ opt_str (password s)) of
        None \<Rightarrow> (False, s, e0)
      | Some auth_bytes \<Rightarrow>
          let s1 = s\<lparr>session_authorization := Some (''Basic '' @ b64encode auth_bytes)\<rparr>;
              (out, s2, e1) = session_get s1 (current_user_url s1) None None
          in (case out of
                Resp r \<Rightarrow>
                  (case confirmed_user r of
                     Some name \<Rightarrow> (True, s2, e0 @ e1 @ [Log INFO (BasicSuccess name)])
                   | None \<Rightarrow> (False, s2, e0 @ e1))
              | _ \<Rightarrow> (False, s2, e0 @ e1)))"

text \<open>
  \<^verbatim>\<open>try_web_login\<close>, in its three phases: fetching the login page and reading the tokens
  off it, posting the credentials, and confirming the login. Every exception is caught
  and makes the strategy fail.
\<close>

definition login_url :: "collector \<Rightarrow> string" where
  "login_url s = base_url s @ ''/c/portal/login''"

text \<open>The form posted: the credentials, and each token that was found on the page.\<close>

definition login_data :: "collector \<Rightarrow> response \<Rightarrow> (string \<times> string option) list" where
  "login_data s r =
     (let p_auth = first_match (p_auth_matches r);
          csrf = first_match (csrf_matches r);
          auth_token = first_match (auth_matches r)
      in [(''login'', username s), (''password'', password s),
          (''rememberMe'', Some ''false'')]
         @ (if p_auth \<noteq> [] then [(''p_auth'', Some p_auth)] else [])
         @ (if csrf \<noteq> [] then [(''csrf_token'', Some csrf)] else [])
         @ (if auth_token \<noteq> [] then [(''authenticity_token'', Some auth_token)] else []))"

text \<open>A CSRF token found on the login page becomes the collector's.\<close>

definition keep_page_csrf :: "collector \<Rightarrow> response \<Rightarrow> collector" where
  "keep_page_csrf s r =
     (let csrf = first_match (csrf_matches r)
      in if csrf \<noteq> [] then s\<lparr>csrf_token := Some csrf\<rparr> else s)"

text \<open>Neither \<^verbatim>\<open>sign-in\<close> nor \<^verbatim>\<open>login\<close> occurs in the lower-cased text of the answer.\<close>

definition no_login_markers :: "response \<Rightarrow> bool" where
  "no_login_markers lr =
     (\<not> contains ''sign-in'' (map lower_char (resp_text lr))
      \<and> \<not> contains ''login'' (map lower_char (resp_text lr)))"

definition confirm_login :: "collector \<Rightarrow> response \<Rightarrow> bool \<times> collector \<times> event list" where
  "confirm_login s lr =
     (let (out, s1, e1) = session_get s (current_user_url s) None None
      in case out of
           Resp ur \<Rightarrow>
             (case confirmed_user ur of
                Some name \<Rightarrow> (True, s1, e1 @ [Log INFO (WebLoginSuccess name)])
              | None \<Rightarrow>
                  if no_login_markers lr then (True, s1, e1 @ [Log INFO WebLoginSeemsOk])
                  else (False, s1, e1))
         | _ \<Rightarrow> (False, s1, e1))"

definition submit_login ::
  "collector \<Rightarrow> (string \<times> string option) list \<Rightarrow> bool \<times> collector \<times> event list" where
  "submit_login s form =
     (let (out, s1, e1) = session_post s (login_url s) form
      in case out of
           Resp lr \<Rightarrow>
             if status_code lr = 200 \<and> \<not> contains ''error'' (resp_url lr) then
               (let (ok, s2, e2) = confirm_login s1 lr in (ok, s2, e1 @ e2))
             else (False, s1, e1)
         | _ \<Rightarrow> (False, s1, e1))"

definition try_web_login :: "collector \<Rightarrow> bool \<times> collector \<times> event list" where
  "try_web_login s =
     (let e0 = [Log INFO (Trying WebLogin)];
          (out, s1, e1) = session_get s (login_url s) None None
      in case out of
           Resp r \<Rightarrow>
             if status_code r \<noteq> 200 then (False, s1, e0 @ e1)
             else
               (let (ok, s2, e2) = submit_login (keep_page_csrf s1 r) (login_data s1 r)
                in (ok, s2, e0 @ e1 @ e2))
         | _ \<Rightarrow> (False, s1, e0 @ e1))"

definition user_agent :: string where
  "user_agent = ''Mozilla/5.0 (X11; Linux x86_64) AppleWebKit/537.36 (KHTML, like Gecko) Chrome/120.0.0.0 Safari/537.36''"

definition try_jsonws_login :: "collector \<Rightarrow> bool \<times> collector \<times> event list" where
  "try_jsonws_login s =
     (let e0 = [Log INFO (Trying JsonWS)];
          login_data =
            [(''companyId'', Some []), (''login'', username s), (''password'', password s),
             (''remoteAddr'', Some []), (''remoteHost'', Some []),
             (''userAgent'', Some user_agent)];
          (out, s1, e1) = session_post s (base_url s @ ''/api/jsonws/user/authenticate'') login_data
      in case out of
           Resp r \<Rightarrow>
             if status_code r = 200 then (True, s1, e0 @ e1 @ [Log INFO JsonWSSuccess])
             else (False, s1, e0 @ e1)
         | _ \<Rightarrow> (False, s1, e0 @ e1))"

definition try_oauth2 :: "collector \<Rightarrow> bool \<times> collector \<times> event list" where
  "try_oauth2 s =
     (let e0 = [Log INFO (Trying OAuth2)];
          oauth_data =
            [(''grant_type'', Some ''password''), (''username'', username s),
             (''password'', password s), (''client_id'', Some ''headless-server'')];
          (out, s1, e1) = session_post s (base_url s @ ''/o/oauth2/token'') oauth_data
      in case out of
           Resp r \<Rightarrow>
             if status_code r = 200 then
               (case resp_json r of
                  Some (JObj d) \<Rightarrow>
                    let access_token = dict_get d ''access_token'' JNull
                    in if truthy access_token
                       then (True,
                             s1\<lparr>session_authorization := Some (''Bearer '' @ py_str access_token)\<rparr>,
                             e0 @ e1 @ [Log INFO OAuth2Success])
                       else (False, s1, e0 @ e1)
                | _ \<Rightarrow> (False, s1, e0 @ e1))
             else (False, s1, e0 @ e1)
         | _ \<Rightarrow> (False, s1, e0 @ e1))"

text \<open>\<^verbatim>\<open>authenticate_comprehensive\<close>: the four strategies in turn, returning at the first that succeeds.\<close>

definition authenticate_comprehensive :: "collector \<Rightarrow> collector \<times> event list" where
  "authenticate_comprehensive s =
     (let e0 = [Log INFO AuthStart];
          (ok1, s1, e1) = try_basic_auth s
      in if ok1 then (s1, e0 @ e1 @ [Log INFO (StrategyWorked BasicAuth)])
         else
           let (ok2, s2, e2) = try_web_login s1
           in if ok2 then (s2, e0 @ e1 @ e2 @ [Log INFO (StrategyWorked WebLogin)])
              else
                let (ok3, s3, e3) = try_jsonws_login s2
                in if ok3 then (s3, e0 @ e1 @ e2 @ e3 @ [Log INFO (StrategyWorked JsonWS)])
                   else
                     let (ok4, s4, e4) = try_oauth2 s3
                     in if ok4
                        then (s4, e0 @ e1 @ e2 @ e3 @ e4 @ [Log INFO (StrategyWorked OAuth2)])
                        else (s4, e0 @ e1 @ e2 @ e3 @ e4 @ [Log WARNING NoStrategyWorked]))"


section \<open>The CSRF token\<close>

definition csrf_sources :: "collector \<Rightarrow> string list" where
  "csrf_sources s =
     [base_url s @ ''/'', base_url s @ ''/web/guest'',
      base_url s @ ''/group/control_panel'', base_url s @ ''/api/jsonws'']"

text \<open>
  The token one answer gives, with the log message that reports it (by the token's
  first ten characters): the response header first, the text of the body otherwise;
  only an answer of status 200 is read.
\<close>

definition csrf_in_response :: "response \<Rightarrow> (message \<times> string) option" where
  "csrf_in_response r =
     (if status_code r = 200 then
        (case resp_csrf_header r of
           Some h \<Rightarrow>
             if h \<noteq> [] then Some (CsrfFromHeader (first_ten h), h)
             else (case csrf_long_matches r of
                     [] \<Rightarrow> None
                   | m # _ \<Rightarrow> Some (CsrfFromContent (first_ten m), m))
         | None \<Rightarrow>
             (case csrf_long_matches r of
                [] \<Rightarrow> None
              | m # _ \<Rightarrow> Some (CsrfFromContent (first_ten m), m)))
      else None)"

definition csrf_in_outcome :: "outcome \<Rightarrow> (message \<times> string) option" where
  "csrf_in_outcome out = (case out of Resp r \<Rightarrow> csrf_in_response r | _ \<Rightarrow> None)"

text \<open>The loop of \<^verbatim>\<open>find_csrf_token\<close> over the candidate URLs; an exception moves on to the next URL.\<close>

fun csrf_scan :: "collector \<Rightarrow> string list \<Rightarrow> collector \<times> event list" where
  "csrf_scan s [] = (s, [Log WARNING CsrfNotFound])"
| "csrf_scan s (url # urls) =
     (let (out, s1, e1) = session_get s url None None
      in case csrf_in_outcome out of
           Some found \<Rightarrow>
             (s1\<lparr>csrf_token := Some (snd found), session_csrf := Some (snd found)\<rparr>,
              e1 @ [Log INFO (fst found)])
         | None \<Rightarrow> (let (s2, e2) = csrf_scan s1 urls in (s2, e1 @ e2)))"

definition find_csrf_token :: "collector \<Rightarrow> collector \<times> event list" where
  "find_csrf_token s = csrf_scan s (csrf_sources s)"


section \<open>One request, with retries\<close>

text \<open>
  How the body of one attempt ends: it returns the decoded body, or it raises a TLS
  failure, an \<^verbatim>\<open>HTTPError\<close> (\<^verbatim>\<open>raise_for_status\<close>, statuses 400 to 599), or another
  exception (of the transport, or of the decoding).
\<close>

datatype failure = HttpError int | OtherError

datatype verdict = Returned json | TlsError | Failure failure

definition classify :: "outcome \<Rightarrow> verdict" where
  "classify out =
     (case out of
        RaiseSSL \<Rightarrow> TlsError
      | RaiseOther \<Rightarrow> Failure OtherError
      | Resp r \<Rightarrow>
          if 400 \<le> status_code r \<and> status_code r < 600 then Failure (HttpError (status_code r))
          else (case resp_json r of
                  None \<Rightarrow> Failure OtherError
                | Some d \<Rightarrow> Returned d))"

text \<open>The re-authentication of the handlers for 401 and 403, on attempt 0.\<close>

definition reauthenticate :: "collector \<Rightarrow> collector \<times> event list" where
  "reauthenticate s =
     (if truthy_str (username s) \<and> truthy_str (password s)
      then (let (s1, e1) = authenticate_comprehensive s in (s1, Log INFO Reauthenticating # e1))
      else (s, [Log INFO Reauthenticating]))"

text \<open>What the two retrying handlers do before they decide between retry and giving up.\<close>

definition handle_failure ::
  "collector \<Rightarrow> string \<Rightarrow> nat \<Rightarrow> failure \<Rightarrow> collector \<times> event list" where
  "handle_failure s url attempt f =
     (case f of
        HttpError status \<Rightarrow>
          if status = 403 then
            (if attempt = 0
             then (let (s1, e1) = reauthenticate s in (s1, Log WARNING (Forbidden url) # e1))
             else (s, [Log WARNING (Forbidden url)]))
          else if status = 401 then
            (if attempt = 0
             then (let (s1, e1) = reauthenticate s in (s1, Log WARNING (Unauthorized url) # e1))
             else (s, [Log WARNING (Unauthorized url)]))
          else (s, [Log WARNING (HttpFailure status url)])
      | OtherError \<Rightarrow> (s, [Log WARNING (AttemptFailed (attempt + 1) url)]))"

definition count_error :: "collector \<Rightarrow> collector" where
  "count_error s = s\<lparr>stats := (stats s)\<lparr>errors := errors (stats s) + 1\<rparr>\<rparr>"

definition tls_log :: "collector \<Rightarrow> event list" where
  "tls_log s = Log ERROR SslFailure # (if verify_ssl s then [Log WARNING SslHint] else [])"

text \<open>The GET of one attempt: the CSRF header of the call is the collector's token, when it has one.\<close>

definition api_get ::
  "collector \<Rightarrow> string \<Rightarrow> (nat \<times> nat) option \<Rightarrow> outcome \<times> collector \<times> event list" where
  "api_get s url params =
     session_get s url params (if truthy_str (csrf_token s) then csrf_token s else None)"

text \<open>
  The loop \<^verbatim>\<open>for attempt in range(max_retries)\<close>, from \<open>attempt\<close> on. When the range is
  used up without a \<^verbatim>\<open>return\<close> the function returns \<^verbatim>\<open>None\<close>.
\<close>

function request_loop ::
  "collector \<Rightarrow> string \<Rightarrow> (nat \<times> nat) option \<Rightarrow> nat \<Rightarrow> nat
     \<Rightarrow> json option \<times> collector \<times> event list" where
  "request_loop s url params max_retries attempt =
     (if attempt < max_retries then
        (let (out, s1, e1) = api_get s url params
         in case classify out of
              Returned d \<Rightarrow> (Some d, s1, e1)
            | TlsError \<Rightarrow> (None, s1, e1 @ tls_log s1)
            | Failure f \<Rightarrow>
                (let (s2, e2) = handle_failure s1 url attempt f
                 in if attempt + 1 < max_retries then
                      (let (r, s3, e3) = request_loop s2 url params max_retries (attempt + 1)
                       in (r, s3, e1 @ e2 @ Sleep (2 ^ attempt) # e3))
                    else (None, count_error s2, e1 @ e2)))
      else (None, s, []))"
  by pat_completeness auto

termination
  by (relation "measure (\<lambda>(s, url, params, max_retries, attempt). max_retries - attempt)") auto

declare request_loop.simps [simp del]

text \<open>Before the first attempt: the CSRF token is looked for when the collector has none.\<close>

definition ensure_csrf :: "collector \<Rightarrow> collector \<times> event list" where
  "ensure_csrf s = (if \<not> truthy_str (csrf_token s) then find_csrf_token s else (s, []))"

definition make_request ::
  "collector \<Rightarrow> string \<Rightarrow> (nat \<times> nat) option \<Rightarrow> nat
     \<Rightarrow> json option \<times> collector \<times> event list" where
  "make_request s url params max_retries =
     (let (s0, e0) = ensure_csrf s;
          (r, s1, e1) = request_loop s0 url params max_retries 0
      in (r, s1, e0 @ e1))"

text \<open>The callers never pass \<^verbatim>\<open>max_retries\<close>: the default applies.\<close>

definition default_max_retries :: nat where
  "default_max_retries = 3"

text \<open>\<^verbatim>\<open>if response:\<close> and \<^verbatim>\<open>if not data:\<close> on what \<^verbatim>\<open>make_request\<close> returned.\<close>

definition got :: "json option \<Rightarrow> bool" where
  "got r = (case r of None \<Rightarrow> False | Some d \<Rightarrow> truthy d)"


section \<open>The access test\<close>





section \<open>Paginated collection\<close>

text \<open>
  What the first page tells: \<^verbatim>\<open>data.get('totalCount', 0)\<close> and \<^verbatim>\<open>data.get('lastPage', 1)\<close>.
  On a later page the total number of pages is the one already known.
\<close>

definition page_totals :: "nat \<Rightarrow> json \<Rightarrow> json \<Rightarrow> py_error + (json \<times> json)" where
  "page_totals page total_pages d =
     (if page = 1 then
        (case py_get d ''totalCount'' (JInt 0) of
           Inl err \<Rightarrow> Inl err
         | Inr total_count \<Rightarrow>
             (case py_get d ''lastPage'' (JInt 1) of
                Inl err \<Rightarrow> Inl err
              | Inr last_page \<Rightarrow> Inr (total_count, last_page)))
      else Inr (JNull, total_pages))"

text \<open>\<^verbatim>\<open>items = data.get('items', [])\<close>, as \<^verbatim>\<open>all_data.extend(items)\<close> takes them.\<close>

definition page_items :: "json \<Rightarrow> py_error + json list" where
  "page_items d =
     (case py_get d ''items'' (JArr []) of
        Inl err \<Rightarrow> Inl err
      | Inr items \<Rightarrow> py_iter items)"

text \<open>The pages still to come, as far as the number of pages known says.\<close>

fun pages_left :: "nat \<Rightarrow> json \<Rightarrow> nat" where
  "pages_left page (JInt n) = nat (n - int page)"
| "pages_left page (JBool b) = (if b then 1 else 0) - page"
| "pages_left page _ = 0"

text \<open>
  How one pass through the body of the loop \<^verbatim>\<open>while True\<close> ends, after the page was
  requested: the request brought nothing (\<^verbatim>\<open>if not data\<close>), an exception escapes, the
  first page reports no records, the page was the last one, or more pages follow. Each
  case carries what the pass logged, and the last two the items of the page.
\<close>

datatype page_end =
    Failed
  | Raised py_error "event list"
  | NoData "event list"
  | LastPage "json list" "event list"
  | MorePages json "json list" "event list"

definition page_step :: "data_key \<Rightarrow> nat \<Rightarrow> json \<Rightarrow> json option \<Rightarrow> page_end" where
  "page_step data_key page total_pages data =
     (if \<not> got data then Failed
      else
        (case data of
           None \<Rightarrow> Failed
         | Some d \<Rightarrow>
             (case page_totals page total_pages d of
                Inl err \<Rightarrow> Raised err []
              | Inr totals \<Rightarrow>
                  (let e2 = (if page = 1
                             then [Log INFO (Totals data_key (fst totals) (snd totals))]
                             else [])
                   in if page = 1 \<and> py_eq_zero (fst totals)
                      then NoData (e2 @ [Log WARNING (NoRecords data_key)])
                      else
                        (case page_items d of
                           Inl err \<Rightarrow> Raised err e2
                         | Inr items \<Rightarrow>
                             (let e3 = [Log INFO (PageCollected page (snd totals)
                                                    (length items))]
                              in case py_ge page (snd totals) of
                                   Inl err \<Rightarrow> Raised err (e2 @ e3)
                                 | Inr is_last \<Rightarrow>
                                     if is_last then LastPage items (e2 @ e3)
                                     else MorePages (snd totals) items (e2 @ e3)))))))"

text \<open>
  The loop of \<^verbatim>\<open>collect_paginated_data\<close>, entered with the page to fetch, the number of
  pages known so far and the items gathered so far. The result is the list it leaves in
  \<^verbatim>\<open>all_data\<close>, or the exception that escapes.
\<close>

function collect_pages ::
  "collector \<Rightarrow> string \<Rightarrow> data_key \<Rightarrow> nat \<Rightarrow> nat \<Rightarrow> json \<Rightarrow> json list
     \<Rightarrow> (py_error + json list) \<times> collector \<times> event list" where
  "collect_pages s url data_key page_size page total_pages all_data =
     (let (data, s1, e1) = make_request s url (Some (page, page_size)) default_max_retries
      in case page_step data_key page total_pages data of
           Failed \<Rightarrow> (Inr all_data, s1, e1 @ [Log ERROR (PageFailed data_key page)])
         | Raised err e \<Rightarrow> (Inl err, s1, e1 @ e)
         | NoData e \<Rightarrow> (Inr all_data, s1, e1 @ e)
         | LastPage items e \<Rightarrow> (Inr (all_data @ items), s1, e1 @ e)
         | MorePages last_page items e \<Rightarrow>
             (let (r, s2, e2) =
                    collect_pages s1 url data_key page_size (page + 1) last_page
                      (all_data @ items)
              in (r, s2, e1 @ e @ Pause # e2)))"
  by pat_completeness auto

termination
proof (relation "measures [\<lambda>(s, url, data_key, page_size, page, total_pages, all_data).
                             if page \<le> 1 then 2 - page else 0,
                           \<lambda>(s, url, data_key, page_size, page, total_pages, all_data).
                             pages_left page total_pages]", goal_cases)
  case 1
  show ?case by simp
next
  case (2 s url data_key page_size page total_pages all_data x data y s1 e1 last_page items e)
  have more: "page_step data_key page total_pages data = MorePages last_page items e"
    using 2 by simp
  then have ge: "py_ge page last_page = Inr False"
    by (auto simp: page_step_def Let_def
        split: if_splits option.splits sum.splits)
  show ?case
  proof (cases "page \<le> 1")
    case True
    then show ?thesis by auto
  next
    case False
    then have "last_page = total_pages"
      using more
      by (auto simp: page_step_def page_totals_def Let_def
          split: if_splits option.splits sum.splits)
    with ge False show ?thesis
      by (cases total_pages) (auto split: if_splits)
  qed
qed

declare collect_pages.simps [simp del]

definition collect_paginated_data ::
  "collector \<Rightarrow> string \<Rightarrow> data_key \<Rightarrow> nat
     \<Rightarrow> (py_error + json list) \<times> collector \<times> event list" where
  "collect_paginated_data s endpoint data_key page_size =
     (let (r, s1, e1) = collect_pages s (base_url s @ endpoint) data_key page_size 1 JNull []
      in case r of
           Inl err \<Rightarrow> (Inl err, s1, Log INFO (CollectStart data_key) # e1)
         | Inr all_data \<Rightarrow>
             (Inr all_data, s1,
              Log INFO (CollectStart data_key) # e1
                @ [Log INFO (CollectDone data_key (length all_data))]))"

section \<open>The resource collectors\<close>

text \<open>
  The four plain collectors differ in endpoint, page size, file and counter. A file is
  written, and the counter set, only when something was collected.
\<close>

definition site_endpoint :: "collector \<Rightarrow> string \<Rightarrow> string" where
  "site_endpoint s name = ''/o/headless-delivery/v1.0/sites/'' @ site_id s @ ''/'' @ name"

definition save_data :: "outfile \<Rightarrow> json list \<Rightarrow> event list" where
  "save_data file data =
     [WriteFile file (JArr data), Log INFO (Saved file (length data))]"

definition collect_structured_contents ::
  "collector \<Rightarrow> (py_error + unit) \<times> collector \<times> event list" where
  "collect_structured_contents s =
     (let (r, s1, e1) =
            collect_paginated_data s (site_endpoint s ''structured-contents'')
              KStructuredContents 20
      in case r of
           Inl err \<Rightarrow> (Inl err, s1, e1)
         | Inr data \<Rightarrow>
             if data \<noteq> [] then
               (Inr (), s1\<lparr>stats := (stats s1)\<lparr>structured_contents := length data\<rparr>\<rparr>,
                e1 @ save_data StructuredContentsFile data)
             else (Inr (), s1, e1))"

definition collect_content_folders ::
  "collector \<Rightarrow> (py_error + unit) \<times> collector \<times> event list" where
  "collect_content_folders s =
     (let (r, s1, e1) =
            collect_paginated_data s (site_endpoint s ''structured-content-folders'')
              KContentFolders 10
      in case r of
           Inl err \<Rightarrow> (Inl err, s1, e1)
         | Inr data \<Rightarrow>
             if data \<noteq> [] then
               (Inr (), s1\<lparr>stats := (stats s1)\<lparr>content_folders := length data\<rparr>\<rparr>,
                e1 @ save_data ContentFoldersFile data)
             else (Inr (), s1, e1))"

definition collect_site_pages ::
  "collector \<Rightarrow> (py_error + unit) \<times> collector \<times> event list" where
  "collect_site_pages s =
     (let (r, s1, e1) =
            collect_paginated_data s (site_endpoint s ''site-pages'') KSitePages 10
      in case r of
           Inl err \<Rightarrow> (Inl err, s1, e1)
         | Inr data \<Rightarrow>
             if data \<noteq> [] then
               (Inr (), s1\<lparr>stats := (stats s1)\<lparr>site_pages := length data\<rparr>\<rparr>,
                e1 @ save_data SitePagesFile data)
             else (Inr (), s1, e1))"

text \<open>\<^verbatim>\<open>collect_document_folders\<close> returns the folders it collected.\<close>

definition collect_document_folders ::
  "collector \<Rightarrow> (py_error + json list) \<times> collector \<times> event list" where
  "collect_document_folders s =
     (let (r, s1, e1) =
            collect_paginated_data s (site_endpoint s ''document-folders'')
              KDocumentFolders 20
      in case r of
           Inl err \<Rightarrow> (Inl err, s1, e1)
         | Inr folders \<Rightarrow>
             if folders \<noteq> [] then
               (Inr folders, s1\<lparr>stats := (stats s1)\<lparr>document_folders := length folders\<rparr>\<rparr>,
                e1 @ save_data DocumentFoldersFile folders)
             else (Inr [], s1, e1))"


section \<open>Documents, folder by folder\<close>

text \<open>\<^verbatim>\<open>folder.get('id')\<close> and \<^verbatim>\<open>folder.get('name', f'Pasta_{folder_id}')\<close> on a folder that is a dict.\<close>

definition folder_id_of :: "(string \<times> json) list \<Rightarrow> json" where
  "folder_id_of d = dict_get d ''id'' JNull"

definition folder_name_of :: "(string \<times> json) list \<Rightarrow> json" where
  "folder_name_of d = dict_get d ''name'' (JStr (''Pasta_'' @ py_str (folder_id_of d)))"

definition source_folder :: "json \<Rightarrow> json \<Rightarrow> json" where
  "source_folder folder_id folder_name = JObj [(''id'', folder_id), (''name'', folder_name)]"

text \<open>
  The loop \<^verbatim>\<open>for doc in documents: doc['source_folder'] = ...\<close>: it stops at the first
  document that does not take the assignment.
\<close>

fun annotate :: "json \<Rightarrow> json list \<Rightarrow> py_error + json list" where
  "annotate src [] = Inr []"
| "annotate src (doc # docs) =
     (case py_setitem doc ''source_folder'' src of
        Inl err \<Rightarrow> Inl err
      | Inr doc' \<Rightarrow>
          (case annotate src docs of
             Inl err \<Rightarrow> Inl err
           | Inr docs' \<Rightarrow> Inr (doc' # docs')))"

definition folder_endpoint :: "json \<Rightarrow> string" where
  "folder_endpoint folder_id =
     ''/o/headless-delivery/v1.0/document-folders/'' @ py_str folder_id @ ''/documents''"

text \<open>
  The file of one folder's documents: written when there are documents; the name of the
  file is made with \<^verbatim>\<open>re.sub\<close> on the folder's name, which raises unless the name is a
  string.
\<close>

definition save_folder_documents ::
  "json \<Rightarrow> json \<Rightarrow> json list \<Rightarrow> py_error + event list" where
  "save_folder_documents folder_id folder_name annotated =
     (if annotated \<noteq> [] then
        (case folder_name of
           JStr name \<Rightarrow> Inr [WriteFile (FolderDocumentsFile folder_id name) (JArr annotated)]
         | _ \<Rightarrow> Inl TypeError)
      else Inr [])"

text \<open>
  The body of the loop over the folders, for folder number \<open>i\<close> of \<open>n\<close>: the result is the
  folder's annotated documents.
\<close>

definition collect_folder ::
  "collector \<Rightarrow> nat \<Rightarrow> nat \<Rightarrow> json \<Rightarrow> (py_error + json list) \<times> collector \<times> event list" where
  "collect_folder s i n folder =
     (case folder of
        JObj d \<Rightarrow>
          (let folder_id = folder_id_of d;
               folder_name = folder_name_of d;
               e0 = [Log INFO (FolderProgress i n folder_name)];
               (r, s1, e1) =
                 collect_paginated_data s (folder_endpoint folder_id)
                   (KFolderDocuments folder_name) 20
           in case r of
                Inl err \<Rightarrow> (Inl err, s1, e0 @ e1)
              | Inr docs \<Rightarrow>
                  (case annotate (source_folder folder_id folder_name) docs of
                     Inl err \<Rightarrow> (Inl err, s1, e0 @ e1)
                   | Inr annotated \<Rightarrow>
                       (case save_folder_documents folder_id folder_name annotated of
                          Inl err \<Rightarrow> (Inl err, s1, e0 @ e1)
                        | Inr e2 \<Rightarrow> (Inr annotated, s1, e0 @ e1 @ e2))))
      | _ \<Rightarrow> (Inl AttributeError, s, []))"

fun collect_folders ::
  "collector \<Rightarrow> nat \<Rightarrow> nat \<Rightarrow> json list \<Rightarrow> json list
     \<Rightarrow> (py_error + json list) \<times> collector \<times> event list" where
  "collect_folders s i n [] all_documents = (Inr all_documents, s, [])"
| "collect_folders s i n (folder # folders) all_documents =
     (let (r, s1, e1) = collect_folder s i n folder
      in case r of
           Inl err \<Rightarrow> (Inl err, s1, e1)
         | Inr annotated \<Rightarrow>
             (let (r2, s2, e2) = collect_folders s1 (i + 1) n folders (all_documents @ annotated)
              in (r2, s2, e1 @ e2)))"

definition collect_documents_from_folders ::
  "collector \<Rightarrow> json list \<Rightarrow> (py_error + unit) \<times> collector \<times> event list" where
  "collect_documents_from_folders s folders =
     (let (r, s1, e1) = collect_folders s 1 (length folders) folders []
      in case r of
           Inl err \<Rightarrow> (Inl err, s1, e1)
         | Inr all_documents \<Rightarrow>
             if all_documents \<noteq> [] then
               (Inr (), s1\<lparr>stats := (stats s1)\<lparr>documents := length all_documents\<rparr>\<rparr>,
                e1 @ save_data AllDocumentsFile all_documents)
             else (Inr (), s1, e1))"


section \<open>The summary and the full run\<close>

text \<open>
  The report: the counters and the configuration (the time of the run and its duration,
  which the source also writes, are left out).
\<close>

definition json_nat :: "nat \<Rightarrow> json" where
  "json_nat n = JInt (int n)"

definition summary :: "collector \<Rightarrow> json" where
  "summary s =
     JObj [(''estatisticas'',
            JObj [(''conteudos_estruturados'', json_nat (structured_contents (stats s))),
                  (''pastas_de_conteudo'', json_nat (content_folders (stats s))),
                  (''paginas_do_site'', json_nat (site_pages (stats s))),
                  (''pastas_de_documentos'', json_nat (document_folders (stats s))),
                  (''documentos'', json_nat (documents (stats s))),
                  (''erros'', json_nat (errors (stats s)))]),
           (''configuracao'',
            JObj [(''base_url'', JStr (base_url s)),
                  (''site_id'', JStr (site_id s)),
                  (''output_dir'', JStr (output_dir s)),
                  (''username'', (case username s of None \<Rightarrow> JNull | Some u \<Rightarrow> JStr u)),
                  (''verify_ssl'', JBool (verify_ssl s)),
                  (''csrf_token_obtido'', JBool (truthy_str (csrf_token s)))])]"

definition generate_summary_report :: "collector \<Rightarrow> collector \<times> event list" where
  "generate_summary_report s =
     (s, [WriteFile SummaryReportFile (summary s),
          Log INFO SummaryRule, Log INFO SummaryTitle, Log INFO SummaryRule,
          Log INFO (SummaryCount ''structured_contents'' (structured_contents (stats s))),
          Log INFO (SummaryCount ''content_folders'' (content_folders (stats s))),
          Log INFO (SummaryCount ''site_pages'' (site_pages (stats s))),
          Log INFO (SummaryCount ''document_folders'' (document_folders (stats s))),
          Log INFO (SummaryCount ''documents'' (documents (stats s))),
          Log INFO (SummaryCount ''errors'' (errors (stats s))),
          Log INFO SummaryDuration, Log INFO SummarySaved])"

text \<open>One step after another, as long as no exception escapes.\<close>

definition and_then ::
  "(py_error + 'a) \<times> collector \<times> event list
     \<Rightarrow> ('a \<Rightarrow> collector \<Rightarrow> (py_error + 'b) \<times> collector \<times> event list)
     \<Rightarrow> (py_error + 'b) \<times> collector \<times> event list" where
  "and_then m f =
     (case result_of m of
        Inl err \<Rightarrow> (Inl err, state_of m, events_of m)
      | Inr x \<Rightarrow> (let (r, s, e) = f x (state_of m) in (r, s, events_of m @ e)))"





section \<open>Construction of the collector and the command-line program\<close>

text \<open>\<^verbatim>\<open>base_url.rstrip('/')\<close>.\<close>

definition rstrip_slash :: "string \<Rightarrow> string" where
  "rstrip_slash t = rev (dropWhile (\<lambda>c. c = CHR ''/'') (rev t))"

definition zero_stats :: stats where
  "zero_stats =
     \<lparr>structured_contents = 0, content_folders = 0, site_pages = 0,
      document_folders = 0, documents = 0, errors = 0\<rparr>"

text \<open>
  The constructor: it authenticates when both credentials are given. (The source sets
  up the counters after the authentication, which does not touch them.) The last
  argument is what the remote side will answer during the collector's life.
\<close>

definition new_collector ::
  "string \<Rightarrow> string \<Rightarrow> string option \<Rightarrow> string option \<Rightarrow> string option \<Rightarrow> string \<Rightarrow> bool
     \<Rightarrow> outcome list \<Rightarrow> collector \<times> event list" where
  "new_collector base site user pw csrf out verify world =
     (let s = \<lparr>base_url = rstrip_slash base, site_id = site, username = user,
               password = pw, csrf_token = csrf, output_dir = out, verify_ssl = verify,
               session_authorization = None, session_csrf = None, stats = zero_stats,
               remote = world\<rparr>;
          e0 = [Log INFO (if verify then SslVerifyOn else SslVerifyOff)]
      in if truthy_str user \<and> truthy_str pw
         then (let (s1, e1) = authenticate_comprehensive s in (s1, e0 @ e1))
         else (s, e0))"

text \<open>The parsed command line of \<^verbatim>\<open>main.py\<close>.\<close>

record args =
  arg_base_url :: string
  arg_site_id :: string
  arg_username :: "string option"
  arg_password :: "string option"
  arg_csrf_token :: "string option"
  arg_output_dir :: string
  arg_verify_ssl :: bool
  arg_all :: bool
  arg_structured_contents :: bool
  arg_content_folders :: bool
  arg_site_pages :: bool
  arg_document_folders :: bool
  arg_documents :: bool
  arg_verbose :: bool
  arg_dry_run :: bool

definition collect_options :: "args \<Rightarrow> (string \<times> bool) list" where
  "collect_options a =
     (if arg_all a then
        [(''structured_contents'', True), (''content_folders'', True),
         (''site_pages'', True), (''document_folders'', True), (''documents'', True)]
      else
        [(''structured_contents'', arg_structured_contents a),
         (''content_folders'', arg_content_folders a),
         (''site_pages'', arg_site_pages a),
         (''document_folders'', arg_document_folders a),
         (''documents'', arg_documents a)])"

definition selected :: "(string \<times> bool) list \<Rightarrow> string \<Rightarrow> bool" where
  "selected opts k = (map_of opts k = Some True)"

text \<open>What is printed between the check of the credentials and the check of the selection.\<close>

definition preamble :: "args \<Rightarrow> event list" where
  "preamble a =
     [Print (PUsingCredentials (opt_str (arg_username a))),
      Print (if truthy_str (arg_csrf_token a) then PCsrfGiven (first_ten (opt_str (arg_csrf_token a)))
             else PCsrfAutomatic),
      Print (if arg_verify_ssl a then PSslOn else PSslOff)]"

definition dry_run_report :: "args \<Rightarrow> (string \<times> bool) list \<Rightarrow> event list" where
  "dry_run_report a opts =
     [Print PDryRun, Print PDryRunSettings,
      Print (PDryRunValue (arg_base_url a)), Print (PDryRunValue (arg_site_id a)),
      Print (PDryRunValue (opt_str (arg_username a))),
      Print (PDryRunValue (if arg_verify_ssl a then ''True'' else ''False'')),
      Print (PDryRunValue (arg_output_dir a)), Print PDryRunSelection]
     @ map (\<lambda>kv. Print (PDryRunSelected (fst kv))) (filter snd opts)
     @ [Print PDryRunDone]"

text \<open>A collection that runs only when it was selected, announced by a line.\<close>

definition when_selected ::
  "bool \<Rightarrow> printed \<Rightarrow> (collector \<Rightarrow> (py_error + unit) \<times> collector \<times> event list)
     \<Rightarrow> collector \<Rightarrow> (py_error + unit) \<times> collector \<times> event list" where
  "when_selected on line step s =
     (if on then (let (r, s1, e1) = step s in (r, s1, Print line # e1))
      else (Inr (), s, []))"

definition main_folders_step ::
  "bool \<Rightarrow> collector \<Rightarrow> (py_error + json list) \<times> collector \<times> event list" where
  "main_folders_step on s =
     (if on then
        (let (r, s1, e1) = collect_document_folders s
         in (r, s1, Print (PCollecting KDocumentFolders) # e1))
      else (Inr [], s, []))"

definition main_documents_step ::
  "bool \<Rightarrow> json list \<Rightarrow> collector \<Rightarrow> (py_error + unit) \<times> collector \<times> event list" where
  "main_documents_step on folders s =
     (if on \<and> folders \<noteq> [] then
        (let (r, s1, e1) = collect_documents_from_folders s folders
         in (r, s1, Print PCollectingDocuments # e1))
      else if on \<and> folders = [] then
        (Inr (), s, [Print PNoFoldersWarning, Print PNoFoldersHint])
      else (Inr (), s, []))"

definition main_report_step ::
  "args \<Rightarrow> collector \<Rightarrow> (py_error + unit) \<times> collector \<times> event list" where
  "main_report_step a s =
     (let (s1, e1) = generate_summary_report s
      in (Inr (), s1,
          Print PReport # e1 @
            [Print PFinished, Print (PFinishedDir (arg_output_dir a)),
             Print (PFinishedReport (arg_output_dir a)), Print PFinishedLogs]))"

text \<open>The body of the \<^verbatim>\<open>try\<close> of \<^verbatim>\<open>main\<close>, after the collector is made.\<close>

definition main_steps ::
  "args \<Rightarrow> (string \<times> bool) list \<Rightarrow> collector
     \<Rightarrow> (py_error + unit) \<times> collector \<times> event list" where
  "main_steps a opts s =
     and_then (when_selected (selected opts ''structured_contents'')
                 (PCollecting KStructuredContents) collect_structured_contents s) (\<lambda>_ s1.
     and_then (when_selected (selected opts ''content_folders'')
                 (PCollecting KContentFolders) collect_content_folders s1) (\<lambda>_ s2.
     and_then (when_selected (selected opts ''site_pages'')
                 (PCollecting KSitePages) collect_site_pages s2) (\<lambda>_ s3.
     and_then (main_folders_step (selected opts ''document_folders'') s3) (\<lambda>folders s4.
     and_then (main_documents_step (selected opts ''documents'') folders s4) (\<lambda>_ s5.
     main_report_step a s5)))))"

text \<open>
  \<^verbatim>\<open>main\<close>: the exit status of the process and what the run did. Leaving \<^verbatim>\<open>main\<close> by
  \<^verbatim>\<open>return\<close> ends the process with status 0; \<^verbatim>\<open>sys.exit(1)\<close> ends it with status 1.
\<close>

definition main :: "args \<Rightarrow> outcome list \<Rightarrow> nat \<times> event list" where
  "main a world =
     (if \<not> truthy_str (arg_username a) \<or> \<not> truthy_str (arg_password a) then
        (0, [Print PMissingCredentials, Print PMissingCredentialsHint])
      else if \<not> list_ex snd (collect_options a) then
        (0, preamble a @
            [Print PNothingSelected, Print PNothingSelectedHint, Print PNothingSelectedHelp])
      else if arg_dry_run a then
        (0, preamble a @ dry_run_report a (collect_options a))
      else
        (let (s0, e0) =
               new_collector (arg_base_url a) (arg_site_id a) (arg_username a)
                 (arg_password a) (arg_csrf_token a) (arg_output_dir a) (arg_verify_ssl a)
                 world;
             e1 = [Print PStarting,
                   Print (PSelected (length (filter snd (collect_options a)))
                            (length (collect_options a)))];
             (r, s1, e2) = main_steps a (collect_options a) s0
         in case r of
              Inr _ \<Rightarrow> (0, preamble a @ e0 @ e1 @ e2)
            | Inl err \<Rightarrow>
                (1, preamble a @ e0 @ e1 @ e2 @
                    Print (PExecutionError err) # (if arg_verbose a then [Print PTraceback] else []))))"

section \<open>Reading the record of a run\<close>

text \<open>The strategies tried, in order: each strategy announces itself when it starts.\<close>

definition attempted :: "event list \<Rightarrow> strategy list" where
  "attempted es =
     concat (map (\<lambda>e. case e of Log l m \<Rightarrow> (case m of Trying x \<Rightarrow> [x] | _ \<Rightarrow> []) | _ \<Rightarrow> []) es)"

text \<open>The messages logged at one level, in order.\<close>

definition logged :: "level \<Rightarrow> event list \<Rightarrow> message list" where
  "logged lvl es =
     concat (map (\<lambda>e. case e of Log l m \<Rightarrow> if l = lvl then [m] else [] | _ \<Rightarrow> []) es)"

text \<open>The number of runs of \<^verbatim>\<open>authenticate_comprehensive\<close>: each run logs that it starts.\<close>

definition auth_runs :: "event list \<Rightarrow> nat" where
  "auth_runs es = length (filter (\<lambda>m. m = AuthStart) (logged INFO es))"

text \<open>The back-off sleeps, in seconds, and the HTTP calls, in order.\<close>

definition sleeps :: "event list \<Rightarrow> nat list" where
  "sleeps es = concat (map (\<lambda>e. case e of Sleep n \<Rightarrow> [n] | _ \<Rightarrow> []) es)"

definition exchanges :: "event list \<Rightarrow> (request \<times> outcome) list" where
  "exchanges es = concat (map (\<lambda>e. case e of Http rq out \<Rightarrow> [(rq, out)] | _ \<Rightarrow> []) es)"

definition requests :: "event list \<Rightarrow> request list" where
  "requests es = map fst (exchanges es)"

text \<open>The files written, with their contents, in order.\<close>

definition written :: "event list \<Rightarrow> (outfile \<times> json) list" where
  "written es = concat (map (\<lambda>e. case e of WriteFile f c \<Rightarrow> [(f, c)] | _ \<Rightarrow> []) es)"


text \<open>
  The page requests (page number and page size), and the bodies that the page requests
  brought back: a request carries query parameters only when it asks for a page.
\<close>

definition page_requests :: "event list \<Rightarrow> (nat \<times> nat) list" where
  "page_requests es =
     concat (map (\<lambda>rq. case req_params rq of Some p \<Rightarrow> [p] | None \<Rightarrow> []) (requests es))"

text \<open>The answers to the page requests: the page asked for, and the decoded body that came back.\<close>

definition page_answers :: "event list \<Rightarrow> (nat \<times> json) list" where
  "page_answers es =
     concat (map (\<lambda>x. case req_params (fst x) of
                         Some p \<Rightarrow>
                           (case classify (snd x) of Returned d \<Rightarrow> [(fst p, d)] | _ \<Rightarrow> [])
                       | None \<Rightarrow> [])
                 (exchanges es))"

definition page_bodies :: "event list \<Rightarrow> json list" where
  "page_bodies es = map snd (page_answers es)"

text \<open>The pages reported as failed at one log level, with the key of the collection.\<close>

definition page_failures :: "level \<Rightarrow> event list \<Rightarrow> (data_key \<times> nat) list" where
  "page_failures lvl es =
     concat (map (\<lambda>m. case m of PageFailed k p \<Rightarrow> [(k, p)] | _ \<Rightarrow> []) (logged lvl es))"

text \<open>
  The items of a page body: the elements of the list in its \<^verbatim>\<open>items\<close> field (none when
  the body is not a dict or has no such list). A body is \<open>listed\<close> when its \<^verbatim>\<open>items\<close>
  field, if it has one, is a list. \<open>taken_items\<close> is what the collector's own extraction
  makes of a body. Then: a first page that reports no records (\<^verbatim>\<open>totalCount\<close> zero or
  absent).
\<close>

definition items_of :: "json \<Rightarrow> json list" where
  "items_of d =
     (case d of
        JObj kv \<Rightarrow> (case map_of kv ''items'' of Some (JArr xs) \<Rightarrow> xs | _ \<Rightarrow> [])
      | _ \<Rightarrow> [])"

definition listed :: "json \<Rightarrow> bool" where
  "listed d =
     (case d of
        JObj kv \<Rightarrow>
          (case map_of kv ''items'' of None \<Rightarrow> True | Some (JArr xs) \<Rightarrow> True | Some v \<Rightarrow> False)
      | _ \<Rightarrow> True)"

definition taken_items :: "json \<Rightarrow> json list" where
  "taken_items d = (case page_items d of Inr xs \<Rightarrow> xs | Inl err \<Rightarrow> [])"

definition reports_nothing :: "json \<Rightarrow> bool" where
  "reports_nothing d =
     (truthy d \<and> (case py_get d ''totalCount'' (JInt 0) of
                    Inr total_count \<Rightarrow> py_eq_zero total_count
                  | Inl err \<Rightarrow> False))"

definition no_records :: "json list \<Rightarrow> bool" where
  "no_records bodies = (case bodies of [] \<Rightarrow> False | d # ds \<Rightarrow> reports_nothing d)"

text \<open>The \<^verbatim>\<open>Authorization\<close> headers of the requests sent, in order.\<close>

definition credentials_sent :: "event list \<Rightarrow> string option list" where
  "credentials_sent es = map req_authorization (requests es)"


text \<open>A failure that is not a TLS failure: an error status, an exception of the transport, a body that does not decode.\<close>

definition retryable :: "outcome \<Rightarrow> bool" where
  "retryable out = (case classify out of Failure f \<Rightarrow> True | _ \<Rightarrow> False)"

text \<open>
  A page body that can be processed: a dict whose \<^verbatim>\<open>items\<close> can be iterated (a list, a
  string or a dict) and whose \<^verbatim>\<open>lastPage\<close> can be compared with a page number (an
  integer or a boolean), or a body that counts as no data.
\<close>

definition iterable :: "json \<Rightarrow> bool" where
  "iterable v = (case v of JArr xs \<Rightarrow> True | JStr t \<Rightarrow> True | JObj kv \<Rightarrow> True | _ \<Rightarrow> False)"

definition comparable :: "json \<Rightarrow> bool" where
  "comparable v = (case v of JInt n \<Rightarrow> True | JBool b \<Rightarrow> True | _ \<Rightarrow> False)"

definition processable :: "json \<Rightarrow> bool" where
  "processable d =
     (case d of
        JObj kv \<Rightarrow>
          iterable (dict_get kv ''items'' (JArr []))
          \<and> comparable (dict_get kv ''lastPage'' (JInt 1))
      | _ \<Rightarrow> \<not> truthy d)"

text \<open>The lines printed, in order, and the summary reports written.\<close>

definition printed_lines :: "event list \<Rightarrow> printed list" where
  "printed_lines es = concat (map (\<lambda>e. case e of Print p \<Rightarrow> [p] | _ \<Rightarrow> []) es)"

definition summary_reports :: "event list \<Rightarrow> json list" where
  "summary_reports es =
     concat (map (\<lambda>fc. if fst fc = SummaryReportFile then [snd fc] else []) (written es))"

text \<open>
  The \<^verbatim>\<open>Authorization\<close> header made of the collector's credentials,
  \<^verbatim>\<open>Basic <base64(username:password)>\<close>; a header that carries that credential or a
  bearer token.
\<close>

definition basic_header :: "collector \<Rightarrow> string" where
  "basic_header s = ''Basic '' @ b64encode (opt_str (username s) @ '':'' @ opt_str (password s))"

definition carries_credential :: "collector \<Rightarrow> string option \<Rightarrow> bool" where
  "carries_credential s a =
     (case a of None \<Rightarrow> False | Some h \<Rightarrow> h = basic_header s \<or> take 7 h = ''Bearer '')"










text \<open>
  The attempts of a call of \<^verbatim>\<open>make_request\<close> are its GET requests for the URL and the
  query parameters of the call. The requests that authentication and the search for a
  CSRF token send in between go to other addresses, listed here, and carry no query
  parameters; a call is \<open>apart\<close> from them when it has parameters or another URL.
\<close>

definition own :: "string \<Rightarrow> (nat \<times> nat) option \<Rightarrow> request \<Rightarrow> bool" where
  "own url params rq = (req_method rq = GET \<and> req_url rq = url \<and> req_params rq = params)"

definition attempts :: "string \<Rightarrow> (nat \<times> nat) option \<Rightarrow> event list \<Rightarrow> outcome list" where
  "attempts url params es =
     concat (map (\<lambda>x. if own url params (fst x) then [snd x] else []) (exchanges es))"



text \<open>
  The attempts and the sleeps of a call, in the order of the run; and the schedule that
  back-off prescribes for a sequence of attempts, the first of them being attempt \<open>a\<close>:
  after each attempt but the last, a sleep of \<open>2 ^ a\<close> seconds.
\<close>

datatype moment = Attempt outcome | Slept nat

definition timeline :: "string \<Rightarrow> (nat \<times> nat) option \<Rightarrow> event list \<Rightarrow> moment list" where
  "timeline url params es =
     concat (map (\<lambda>e. case e of
                         Http rq out \<Rightarrow> if own url params rq then [Attempt out] else []
                       | Sleep n \<Rightarrow> [Slept n]
                       | _ \<Rightarrow> []) es)"


text \<open>
  Credentials that can be encoded in ASCII; and a collector that holds the credentials
  of another and whose session carries them, or a bearer token.
\<close>

definition encodable :: "collector \<Rightarrow> bool" where
  "encodable s = (encode_ascii (opt_str (username s) @ '':'' @ opt_str (password s)) \<noteq> None)"

definition credentialed :: "collector \<Rightarrow> collector \<Rightarrow> bool" where
  "credentialed s t =
     (username t = username s \<and> password t = password s
      \<and> carries_credential s (session_authorization t))"


section \<open>Sample runs\<close>

text \<open>
  A collector against a sample site, and two answers of the remote side: one that
  refuses (status 401, no body) and one that accepts (status 200, no body).
\<close>

definition refuse :: response where
  "refuse = \<lparr>status_code = 401, resp_json = None, resp_text = [], resp_url = [],
             resp_csrf_header = None, p_auth_matches = [], csrf_matches = [],
             auth_matches = [], csrf_long_matches = []\<rparr>"

definition accept :: response where
  "accept = refuse\<lparr>status_code := 200\<rparr>"

definition site :: "outcome list \<Rightarrow> collector" where
  "site world =
     \<lparr>base_url = ''https://portal.example'', site_id = ''37101'',
      username = Some ''user'', password = Some ''pass'', csrf_token = None,
      output_dir = ''out'', verify_ssl = False, session_authorization = None,
      session_csrf = None, stats = zero_stats, remote = world\<rparr>"



text \<open>The sample collector once it holds a CSRF token, so that no request goes into looking for one.\<close>

definition site_with_token :: "outcome list \<Rightarrow> collector" where
  "site_with_token world = (site world)\<lparr>csrf_token := Some ''token''\<rparr>"

definition contents_url :: string where
  "contents_url = ''https://portal.example/o/headless-delivery/v1.0/sites/37101/structured-contents''"

text \<open>
  An answer of status 200 with a decoded body, and page envelopes: \<open>envelope n l xs\<close>
  reports \<open>n\<close> records on \<open>l\<close> pages and carries the items \<open>xs\<close>.
\<close>

definition answer :: "json \<Rightarrow> outcome" where
  "answer d = Resp (accept\<lparr>resp_json := Some d\<rparr>)"

definition envelope :: "int \<Rightarrow> int \<Rightarrow> json list \<Rightarrow> json" where
  "envelope n l xs = JObj [(''totalCount'', JInt n), (''lastPage'', JInt l), (''items'', JArr xs)]"

definition record_named :: "string \<Rightarrow> json" where
  "record_named name = JObj [(''title'', JStr name)]"

definition contents_endpoint :: string where
  "contents_endpoint = ''/o/headless-delivery/v1.0/sites/37101/structured-contents''"

text \<open>
  Sample runs of a paginated collection, all on a collector that holds a CSRF token:
  three records on two pages; the same with the second page never answered; a first
  page that reports no records; a first page that reports no records and yet carries
  one; a transport on which every request meets a TLS failure; a remote side that
  never answers.
\<close>

definition two_pages :: collector where
  "two_pages =
     site_with_token [answer (envelope 3 2 [record_named ''a'', record_named ''b'']),
                      answer (envelope 3 2 [record_named ''c''])]"

definition second_page_lost :: collector where
  "second_page_lost =
     site_with_token [answer (envelope 3 2 [record_named ''a'', record_named ''b''])]"

definition nothing_there :: collector where
  "nothing_there = site_with_token [answer (envelope 0 1 [])]"

definition odd_first_page :: collector where
  "odd_first_page = site_with_token [answer (envelope 0 1 [record_named ''x''])]"

definition bad_certificate :: collector where
  "bad_certificate = site_with_token [RaiseSSL, RaiseSSL, RaiseSSL]"

definition silent :: collector where
  "silent = site_with_token []"









text \<open>A password with a letter outside ASCII (the two bytes of an e with acute accent).\<close>

definition accented :: collector where
  "accented = (site [Resp accept])\<lparr>password := Some [CHR 0xC3, CHR 0xA9]\<rparr>"

text \<open>Command lines: everything selected, nothing selected, no password.\<close>

definition sample_args :: args where
  "sample_args =
     \<lparr>arg_base_url = ''https://portal.example'', arg_site_id = ''37101'',
      arg_username = Some ''user'', arg_password = Some ''pass'', arg_csrf_token = None,
      arg_output_dir = ''out'', arg_verify_ssl = False, arg_all = True,
      arg_structured_contents = False, arg_content_folders = False,
      arg_site_pages = False, arg_document_folders = False, arg_documents = False,
      arg_verbose = False, arg_dry_run = False\<rparr>"

definition nothing_selected :: args where
  "nothing_selected = sample_args\<lparr>arg_all := False\<rparr>"

definition no_password :: args where
  "no_password = sample_args\<lparr>arg_password := None\<rparr>"




section \<open>Basic facts\<close>

lemma attempted_simps [simp]:
  "attempted [] = []"
  "attempted (es @ fs) = attempted es @ attempted fs"
  "attempted (Log l m # es) = (case m of Trying x \<Rightarrow> [x] | _ \<Rightarrow> []) @ attempted es"
  "attempted (Http rq out # es) = attempted es"
  "attempted (Sleep n # es) = attempted es"
  "attempted (Pause # es) = attempted es"
  "attempted (WriteFile f c # es) = attempted es"
  "attempted (Print p # es) = attempted es"
  by (simp_all add: attempted_def)

lemma logged_simps [simp]:
  "logged lvl [] = []"
  "logged lvl (es @ fs) = logged lvl es @ logged lvl fs"
  "logged lvl (Log l m # es) = (if l = lvl then m # logged lvl es else logged lvl es)"
  "logged lvl (Http rq out # es) = logged lvl es"
  "logged lvl (Sleep n # es) = logged lvl es"
  "logged lvl (Pause # es) = logged lvl es"
  "logged lvl (WriteFile f c # es) = logged lvl es"
  "logged lvl (Print p # es) = logged lvl es"
  by (simp_all add: logged_def)

lemma auth_runs_simps [simp]:
  "auth_runs [] = 0"
  "auth_runs (es @ fs) = auth_runs es + auth_runs fs"
  "auth_runs (Log l m # es) = (if l = INFO \<and> m = AuthStart then 1 else 0) + auth_runs es"
  "auth_runs (Http rq out # es) = auth_runs es"
  "auth_runs (Sleep n # es) = auth_runs es"
  "auth_runs (Pause # es) = auth_runs es"
  "auth_runs (WriteFile f c # es) = auth_runs es"
  "auth_runs (Print p # es) = auth_runs es"
  by (simp_all add: auth_runs_def)

lemma sleeps_simps [simp]:
  "sleeps [] = []"
  "sleeps (es @ fs) = sleeps es @ sleeps fs"
  "sleeps (Log l m # es) = sleeps es"
  "sleeps (Http rq out # es) = sleeps es"
  "sleeps (Sleep n # es) = n # sleeps es"
  "sleeps (Pause # es) = sleeps es"
  "sleeps (WriteFile f c # es) = sleeps es"
  "sleeps (Print p # es) = sleeps es"
  by (simp_all add: sleeps_def)

lemma exchanges_simps [simp]:
  "exchanges [] = []"
  "exchanges (es @ fs) = exchanges es @ exchanges fs"
  "exchanges (Log l m # es) = exchanges es"
  "exchanges (Http rq out # es) = (rq, out) # exchanges es"
  "exchanges (Sleep n # es) = exchanges es"
  "exchanges (Pause # es) = exchanges es"
  "exchanges (WriteFile f c # es) = exchanges es"
  "exchanges (Print p # es) = exchanges es"
  by (simp_all add: exchanges_def)

lemma requests_simps [simp]:
  "requests [] = []"
  "requests (es @ fs) = requests es @ requests fs"
  "requests (Log l m # es) = requests es"
  "requests (Http rq out # es) = rq # requests es"
  "requests (Sleep n # es) = requests es"
  "requests (Pause # es) = requests es"
  "requests (WriteFile f c # es) = requests es"
  "requests (Print p # es) = requests es"
  by (simp_all add: requests_def)

lemma written_simps [simp]:
  "written [] = []"
  "written (es @ fs) = written es @ written fs"
  "written (Log l m # es) = written es"
  "written (Http rq out # es) = written es"
  "written (Sleep n # es) = written es"
  "written (Pause # es) = written es"
  "written (WriteFile f c # es) = (f, c) # written es"
  "written (Print p # es) = written es"
  by (simp_all add: written_def)

text \<open>An HTTP call leaves one event, and changes nothing of the collector but what is left of the remote side.\<close>

lemma send_events: "events_of (send s rq) = [Http rq (result_of (send s rq))]"
  by (simp add: send_def split: list.split)

lemma send_state: "state_of (send s rq) = s\<lparr>remote := tl (remote s)\<rparr>"
  by (simp add: send_def split: list.split)

lemma session_get_events:
  "events_of (session_get s url params csrf) =
     [Http \<lparr>req_method = GET, req_url = url, req_params = params,
            req_authorization = session_authorization s,
            req_csrf = (case csrf of Some t \<Rightarrow> Some t | None \<Rightarrow> session_csrf s),
            req_form = []\<rparr>
        (result_of (session_get s url params csrf))]"
  by (simp add: session_get_def send_events)

lemma session_post_events:
  "events_of (session_post s url form) =
     [Http \<lparr>req_method = POST, req_url = url, req_params = None,
            req_authorization = session_authorization s,
            req_csrf = session_csrf s, req_form = form\<rparr>
        (result_of (session_post s url form))]"
  by (simp add: session_post_def send_events)

lemma session_get_state: "state_of (session_get s url params csrf) = s\<lparr>remote := tl (remote s)\<rparr>"
  by (simp add: session_get_def send_state)

lemma session_post_state: "state_of (session_post s url form) = s\<lparr>remote := tl (remote s)\<rparr>"
  by (simp add: session_post_def send_state)


lemma page_requests_simps [simp]:
  "page_requests [] = []"
  "page_requests (es @ fs) = page_requests es @ page_requests fs"
  "page_requests (Log l m # es) = page_requests es"
  "page_requests (Http rq out # es) =
     (case req_params rq of Some p \<Rightarrow> [p] | None \<Rightarrow> []) @ page_requests es"
  "page_requests (Sleep n # es) = page_requests es"
  "page_requests (Pause # es) = page_requests es"
  "page_requests (WriteFile f c # es) = page_requests es"
  "page_requests (Print p # es) = page_requests es"
  by (simp_all add: page_requests_def)

lemma page_answers_simps [simp]:
  "page_answers [] = []"
  "page_answers (es @ fs) = page_answers es @ page_answers fs"
  "page_answers (Log l m # es) = page_answers es"
  "page_answers (Http rq out # es) =
     (case req_params rq of
        Some p \<Rightarrow> (case classify out of Returned d \<Rightarrow> [(fst p, d)] | _ \<Rightarrow> [])
      | None \<Rightarrow> []) @ page_answers es"
  "page_answers (Sleep n # es) = page_answers es"
  "page_answers (Pause # es) = page_answers es"
  "page_answers (WriteFile f c # es) = page_answers es"
  "page_answers (Print p # es) = page_answers es"
  by (simp_all add: page_answers_def split: option.split)

lemma page_bodies_simps [simp]:
  "page_bodies [] = []"
  "page_bodies (es @ fs) = page_bodies es @ page_bodies fs"
  "page_bodies (Log l m # es) = page_bodies es"
  "page_bodies (Http rq out # es) =
     (case req_params rq of
        Some p \<Rightarrow> (case classify out of Returned d \<Rightarrow> [d] | _ \<Rightarrow> [])
      | None \<Rightarrow> []) @ page_bodies es"
  "page_bodies (Sleep n # es) = page_bodies es"
  "page_bodies (Pause # es) = page_bodies es"
  "page_bodies (WriteFile f c # es) = page_bodies es"
  "page_bodies (Print p # es) = page_bodies es"
  by (simp_all add: page_bodies_def split: option.split verdict.split)

lemma page_failures_simps [simp]:
  "page_failures lvl [] = []"
  "page_failures lvl (es @ fs) = page_failures lvl es @ page_failures lvl fs"
  "page_failures lvl (Log l m # es) =
     (if l = lvl then (case m of PageFailed k p \<Rightarrow> [(k, p)] | _ \<Rightarrow> []) else [])
       @ page_failures lvl es"
  "page_failures lvl (Http rq out # es) = page_failures lvl es"
  "page_failures lvl (Sleep n # es) = page_failures lvl es"
  "page_failures lvl (Pause # es) = page_failures lvl es"
  "page_failures lvl (WriteFile f c # es) = page_failures lvl es"
  "page_failures lvl (Print p # es) = page_failures lvl es"
  by (simp_all add: page_failures_def)

lemma credentials_sent_simps [simp]:
  "credentials_sent [] = []"
  "credentials_sent (es @ fs) = credentials_sent es @ credentials_sent fs"
  "credentials_sent (Log l m # es) = credentials_sent es"
  "credentials_sent (Http rq out # es) = req_authorization rq # credentials_sent es"
  "credentials_sent (Sleep n # es) = credentials_sent es"
  "credentials_sent (Pause # es) = credentials_sent es"
  "credentials_sent (WriteFile f c # es) = credentials_sent es"
  "credentials_sent (Print p # es) = credentials_sent es"
  by (simp_all add: credentials_sent_def)

lemma list_all_tl: "list_all P xs \<Longrightarrow> list_all P (tl xs)"
  by (cases xs) simp_all

lemma send_result:
  "result_of (send s rq) = (case remote s of [] \<Rightarrow> RaiseOther | out # rest \<Rightarrow> out)"
  by (simp add: send_def split: list.split)

lemma session_get_result:
  "result_of (session_get s url params csrf) =
     (case remote s of [] \<Rightarrow> RaiseOther | out # rest \<Rightarrow> out)"
  by (simp add: session_get_def send_result)

lemma session_post_result:
  "result_of (session_post s url form) =
     (case remote s of [] \<Rightarrow> RaiseOther | out # rest \<Rightarrow> out)"
  by (simp add: session_post_def send_result)

lemma printed_lines_simps [simp]:
  "printed_lines [] = []"
  "printed_lines (es @ fs) = printed_lines es @ printed_lines fs"
  "printed_lines (Log l m # es) = printed_lines es"
  "printed_lines (Http rq out # es) = printed_lines es"
  "printed_lines (Sleep n # es) = printed_lines es"
  "printed_lines (Pause # es) = printed_lines es"
  "printed_lines (WriteFile f c # es) = printed_lines es"
  "printed_lines (Print p # es) = p # printed_lines es"
  by (simp_all add: printed_lines_def)

lemma summary_reports_simps [simp]:
  "summary_reports [] = []"
  "summary_reports (es @ fs) = summary_reports es @ summary_reports fs"
  "summary_reports (Log l m # es) = summary_reports es"
  "summary_reports (Http rq out # es) = summary_reports es"
  "summary_reports (Sleep n # es) = summary_reports es"
  "summary_reports (Pause # es) = summary_reports es"
  "summary_reports (WriteFile f c # es) =
     (if f = SummaryReportFile then [c] else []) @ summary_reports es"
  "summary_reports (Print p # es) = summary_reports es"
  by (simp_all add: summary_reports_def)


lemma attempts_simps [simp]:
  "attempts url params [] = []"
  "attempts url params (es @ fs) = attempts url params es @ attempts url params fs"
  "attempts url params (Log l m # es) = attempts url params es"
  "attempts url params (Http rq out # es) =
     (if own url params rq then [out] else []) @ attempts url params es"
  "attempts url params (Sleep n # es) = attempts url params es"
  "attempts url params (Pause # es) = attempts url params es"
  "attempts url params (WriteFile f c # es) = attempts url params es"
  "attempts url params (Print p # es) = attempts url params es"
  by (simp_all add: attempts_def)

lemma timeline_simps [simp]:
  "timeline url params [] = []"
  "timeline url params (es @ fs) = timeline url params es @ timeline url params fs"
  "timeline url params (Log l m # es) = timeline url params es"
  "timeline url params (Http rq out # es) =
     (if own url params rq then [Attempt out] else []) @ timeline url params es"
  "timeline url params (Sleep n # es) = Slept n # timeline url params es"
  "timeline url params (Pause # es) = timeline url params es"
  "timeline url params (WriteFile f c # es) = timeline url params es"
  "timeline url params (Print p # es) = timeline url params es"
  by (simp_all add: timeline_def)


section \<open>Authentication: what the strategies leave in the record\<close>

lemmas io_simps = session_get_events session_post_events session_get_state session_post_state

lemma try_basic_auth_attempted: "attempted (events_of (try_basic_auth s)) = [BasicAuth]"
  by (simp add: try_basic_auth_def Let_def case_prod_beta io_simps
      split: option.split outcome.split)

lemma confirm_login_attempted: "attempted (events_of (confirm_login s lr)) = []"
  by (simp add: confirm_login_def Let_def case_prod_beta io_simps
      split: option.split outcome.split)

lemma submit_login_attempted: "attempted (events_of (submit_login s form)) = []"
  by (simp add: submit_login_def Let_def case_prod_beta io_simps confirm_login_attempted
      split: option.split outcome.split)

lemma try_web_login_attempted: "attempted (events_of (try_web_login s)) = [WebLogin]"
  by (simp add: try_web_login_def Let_def case_prod_beta io_simps submit_login_attempted
      split: option.split outcome.split)

lemma try_jsonws_login_attempted: "attempted (events_of (try_jsonws_login s)) = [JsonWS]"
  by (simp add: try_jsonws_login_def Let_def case_prod_beta io_simps
      split: option.split outcome.split)

lemma try_oauth2_attempted: "attempted (events_of (try_oauth2 s)) = [OAuth2]"
  by (simp add: try_oauth2_def Let_def case_prod_beta io_simps
      split: option.split outcome.split json.split)


lemma try_basic_auth_logged:
  "logged WARNING (events_of (try_basic_auth s)) = []"
  "logged ERROR (events_of (try_basic_auth s)) = []"
  by (simp_all add: try_basic_auth_def Let_def case_prod_beta io_simps
      split: option.split outcome.split)

lemma confirm_login_logged:
  "logged WARNING (events_of (confirm_login s lr)) = []"
  "logged ERROR (events_of (confirm_login s lr)) = []"
  by (simp_all add: confirm_login_def Let_def case_prod_beta io_simps
      split: option.split outcome.split)

lemma submit_login_logged:
  "logged WARNING (events_of (submit_login s form)) = []"
  "logged ERROR (events_of (submit_login s form)) = []"
  by (simp_all add: submit_login_def Let_def case_prod_beta io_simps confirm_login_logged
      split: option.split outcome.split)

lemma try_web_login_logged:
  "logged WARNING (events_of (try_web_login s)) = []"
  "logged ERROR (events_of (try_web_login s)) = []"
  by (simp_all add: try_web_login_def Let_def case_prod_beta io_simps submit_login_logged
      split: option.split outcome.split)

lemma try_jsonws_login_logged:
  "logged WARNING (events_of (try_jsonws_login s)) = []"
  "logged ERROR (events_of (try_jsonws_login s)) = []"
  by (simp_all add: try_jsonws_login_def Let_def case_prod_beta io_simps
      split: option.split outcome.split)

lemma try_oauth2_logged:
  "logged WARNING (events_of (try_oauth2 s)) = []"
  "logged ERROR (events_of (try_oauth2 s)) = []"
  by (simp_all add: try_oauth2_def Let_def case_prod_beta io_simps
      split: option.split outcome.split json.split)

lemmas strategy_attempted =
  try_basic_auth_attempted try_web_login_attempted try_jsonws_login_attempted
  try_oauth2_attempted

lemmas strategy_logged =
  try_basic_auth_logged try_web_login_logged try_jsonws_login_logged try_oauth2_logged


text \<open>The strategies neither sleep, nor start an authentication run, nor ask for a page, nor write a file.\<close>

lemma try_basic_auth_quiet:
  "sleeps (events_of (try_basic_auth s)) = []"
  "auth_runs (events_of (try_basic_auth s)) = 0"
  "page_requests (events_of (try_basic_auth s)) = []"
  "page_answers (events_of (try_basic_auth s)) = []"
  "page_failures lvl (events_of (try_basic_auth s)) = []"
  "written (events_of (try_basic_auth s)) = []"
  by (simp_all add: try_basic_auth_def Let_def case_prod_beta io_simps
      split: option.split outcome.split)

lemma confirm_login_quiet:
  "sleeps (events_of (confirm_login s lr)) = []"
  "auth_runs (events_of (confirm_login s lr)) = 0"
  "page_requests (events_of (confirm_login s lr)) = []"
  "page_answers (events_of (confirm_login s lr)) = []"
  "page_failures lvl (events_of (confirm_login s lr)) = []"
  "written (events_of (confirm_login s lr)) = []"
  by (simp_all add: confirm_login_def Let_def case_prod_beta io_simps
      split: option.split outcome.split)

lemma submit_login_quiet:
  "sleeps (events_of (submit_login s form)) = []"
  "auth_runs (events_of (submit_login s form)) = 0"
  "page_requests (events_of (submit_login s form)) = []"
  "page_answers (events_of (submit_login s form)) = []"
  "page_failures lvl (events_of (submit_login s form)) = []"
  "written (events_of (submit_login s form)) = []"
  by (simp_all add: submit_login_def Let_def case_prod_beta io_simps confirm_login_quiet
      split: option.split outcome.split)

lemma try_web_login_quiet:
  "sleeps (events_of (try_web_login s)) = []"
  "auth_runs (events_of (try_web_login s)) = 0"
  "page_requests (events_of (try_web_login s)) = []"
  "page_answers (events_of (try_web_login s)) = []"
  "page_failures lvl (events_of (try_web_login s)) = []"
  "written (events_of (try_web_login s)) = []"
  by (simp_all add: try_web_login_def Let_def case_prod_beta io_simps submit_login_quiet
      split: option.split outcome.split)

lemma try_jsonws_login_quiet:
  "sleeps (events_of (try_jsonws_login s)) = []"
  "auth_runs (events_of (try_jsonws_login s)) = 0"
  "page_requests (events_of (try_jsonws_login s)) = []"
  "page_answers (events_of (try_jsonws_login s)) = []"
  "page_failures lvl (events_of (try_jsonws_login s)) = []"
  "written (events_of (try_jsonws_login s)) = []"
  by (simp_all add: try_jsonws_login_def Let_def case_prod_beta io_simps
      split: option.split outcome.split)

lemma try_oauth2_quiet:
  "sleeps (events_of (try_oauth2 s)) = []"
  "auth_runs (events_of (try_oauth2 s)) = 0"
  "page_requests (events_of (try_oauth2 s)) = []"
  "page_answers (events_of (try_oauth2 s)) = []"
  "page_failures lvl (events_of (try_oauth2 s)) = []"
  "written (events_of (try_oauth2 s)) = []"
  by (simp_all add: try_oauth2_def Let_def case_prod_beta io_simps
      split: option.split outcome.split json.split)

lemmas strategy_quiet =
  try_basic_auth_quiet try_web_login_quiet try_jsonws_login_quiet try_oauth2_quiet

lemma authenticate_comprehensive_quiet:
  "sleeps (snd (authenticate_comprehensive s)) = []"
  "auth_runs (snd (authenticate_comprehensive s)) = 1"
  "page_requests (snd (authenticate_comprehensive s)) = []"
  "page_answers (snd (authenticate_comprehensive s)) = []"
  "page_failures lvl (snd (authenticate_comprehensive s)) = []"
  "written (snd (authenticate_comprehensive s)) = []"
  by (simp_all add: authenticate_comprehensive_def Let_def case_prod_beta strategy_quiet)

text \<open>The strategies leave the configuration and the counters alone.\<close>

lemma try_basic_auth_frame:
  "username (state_of (try_basic_auth s)) = username s"
  "password (state_of (try_basic_auth s)) = password s"
  "base_url (state_of (try_basic_auth s)) = base_url s"
  "site_id (state_of (try_basic_auth s)) = site_id s"
  "verify_ssl (state_of (try_basic_auth s)) = verify_ssl s"
  "stats (state_of (try_basic_auth s)) = stats s"
  by (simp_all add: try_basic_auth_def Let_def case_prod_beta io_simps
      split: option.split outcome.split)

lemma confirm_login_frame:
  "username (state_of (confirm_login s lr)) = username s"
  "password (state_of (confirm_login s lr)) = password s"
  "base_url (state_of (confirm_login s lr)) = base_url s"
  "site_id (state_of (confirm_login s lr)) = site_id s"
  "verify_ssl (state_of (confirm_login s lr)) = verify_ssl s"
  "stats (state_of (confirm_login s lr)) = stats s"
  "session_authorization (state_of (confirm_login s lr)) = session_authorization s"
  by (simp_all add: confirm_login_def Let_def case_prod_beta io_simps
      split: option.split outcome.split)

lemma submit_login_frame:
  "username (state_of (submit_login s form)) = username s"
  "password (state_of (submit_login s form)) = password s"
  "base_url (state_of (submit_login s form)) = base_url s"
  "site_id (state_of (submit_login s form)) = site_id s"
  "verify_ssl (state_of (submit_login s form)) = verify_ssl s"
  "stats (state_of (submit_login s form)) = stats s"
  "session_authorization (state_of (submit_login s form)) = session_authorization s"
  by (simp_all add: submit_login_def Let_def case_prod_beta io_simps confirm_login_frame
      split: option.split outcome.split)

lemma try_web_login_frame:
  "username (state_of (try_web_login s)) = username s"
  "password (state_of (try_web_login s)) = password s"
  "base_url (state_of (try_web_login s)) = base_url s"
  "site_id (state_of (try_web_login s)) = site_id s"
  "verify_ssl (state_of (try_web_login s)) = verify_ssl s"
  "stats (state_of (try_web_login s)) = stats s"
  "session_authorization (state_of (try_web_login s)) = session_authorization s"
  by (simp_all add: try_web_login_def Let_def case_prod_beta io_simps submit_login_frame
      keep_page_csrf_def split: option.split outcome.split)

lemma try_jsonws_login_frame:
  "username (state_of (try_jsonws_login s)) = username s"
  "password (state_of (try_jsonws_login s)) = password s"
  "base_url (state_of (try_jsonws_login s)) = base_url s"
  "site_id (state_of (try_jsonws_login s)) = site_id s"
  "verify_ssl (state_of (try_jsonws_login s)) = verify_ssl s"
  "stats (state_of (try_jsonws_login s)) = stats s"
  "session_authorization (state_of (try_jsonws_login s)) = session_authorization s"
  by (simp_all add: try_jsonws_login_def Let_def case_prod_beta io_simps
      split: option.split outcome.split)

lemma try_oauth2_frame:
  "username (state_of (try_oauth2 s)) = username s"
  "password (state_of (try_oauth2 s)) = password s"
  "base_url (state_of (try_oauth2 s)) = base_url s"
  "site_id (state_of (try_oauth2 s)) = site_id s"
  "verify_ssl (state_of (try_oauth2 s)) = verify_ssl s"
  "stats (state_of (try_oauth2 s)) = stats s"
  by (simp_all add: try_oauth2_def Let_def case_prod_beta io_simps
      split: option.split outcome.split json.split)

lemmas strategy_frame =
  try_basic_auth_frame try_web_login_frame try_jsonws_login_frame try_oauth2_frame

lemma authenticate_comprehensive_frame:
  "username (fst (authenticate_comprehensive s)) = username s"
  "password (fst (authenticate_comprehensive s)) = password s"
  "base_url (fst (authenticate_comprehensive s)) = base_url s"
  "site_id (fst (authenticate_comprehensive s)) = site_id s"
  "verify_ssl (fst (authenticate_comprehensive s)) = verify_ssl s"
  "stats (fst (authenticate_comprehensive s)) = stats s"
  by (simp_all add: authenticate_comprehensive_def Let_def case_prod_beta strategy_frame)

text \<open>What is left of the remote side is a part of what was there.\<close>

lemma try_basic_auth_remote:
  "list_all P (remote s) \<Longrightarrow> list_all P (remote (state_of (try_basic_auth s)))"
  by (simp add: try_basic_auth_def Let_def case_prod_beta io_simps list_all_tl
      split: option.split outcome.split)

lemma confirm_login_remote:
  "list_all P (remote s) \<Longrightarrow> list_all P (remote (state_of (confirm_login s lr)))"
  by (simp add: confirm_login_def Let_def case_prod_beta io_simps list_all_tl
      split: option.split outcome.split)

lemma submit_login_remote:
  "list_all P (remote s) \<Longrightarrow> list_all P (remote (state_of (submit_login s form)))"
  by (simp add: submit_login_def Let_def case_prod_beta io_simps list_all_tl
      confirm_login_remote split: option.split outcome.split)

lemma try_web_login_remote:
  "list_all P (remote s) \<Longrightarrow> list_all P (remote (state_of (try_web_login s)))"
  by (simp add: try_web_login_def Let_def case_prod_beta io_simps list_all_tl
      submit_login_remote keep_page_csrf_def split: option.split outcome.split)

lemma try_jsonws_login_remote:
  "list_all P (remote s) \<Longrightarrow> list_all P (remote (state_of (try_jsonws_login s)))"
  by (simp add: try_jsonws_login_def Let_def case_prod_beta io_simps list_all_tl
      split: option.split outcome.split)

lemma try_oauth2_remote:
  "list_all P (remote s) \<Longrightarrow> list_all P (remote (state_of (try_oauth2 s)))"
  by (simp add: try_oauth2_def Let_def case_prod_beta io_simps list_all_tl
      split: option.split outcome.split json.split)

lemma authenticate_comprehensive_remote:
  "list_all P (remote s) \<Longrightarrow> list_all P (remote (fst (authenticate_comprehensive s)))"
  by (simp add: authenticate_comprehensive_def Let_def case_prod_beta
      try_basic_auth_remote try_web_login_remote try_jsonws_login_remote try_oauth2_remote)

section \<open>Requests: the CSRF scan, the failure handlers, the retry loop\<close>

lemma csrf_found_message:
  "csrf_in_outcome out = Some found \<Longrightarrow>
     fst found = CsrfFromHeader (first_ten (snd found))
     \<or> fst found = CsrfFromContent (first_ten (snd found))"
  by (auto simp: csrf_in_outcome_def csrf_in_response_def
      split: outcome.splits option.splits list.splits if_splits)

lemma csrf_found_quiet:
  assumes "csrf_in_outcome out = Some found"
  shows "auth_runs [Log INFO (fst found)] = 0"
    and "attempted [Log INFO (fst found)] = []"
  using csrf_found_message [OF assms] by auto

lemma csrf_scan_quiet:
  "sleeps (snd (csrf_scan s urls)) = []"
  "auth_runs (snd (csrf_scan s urls)) = 0"
  "page_requests (snd (csrf_scan s urls)) = []"
  "page_answers (snd (csrf_scan s urls)) = []"
  "page_failures lvl (snd (csrf_scan s urls)) = []"
  "written (snd (csrf_scan s urls)) = []"
proof -
  show "sleeps (snd (csrf_scan s urls)) = []"
    by (induction urls arbitrary: s)
       (simp_all add: Let_def case_prod_beta io_simps split: option.split)
  show "auth_runs (snd (csrf_scan s urls)) = 0"
  proof (induction urls arbitrary: s)
    case Nil
    show ?case by simp
  next
    case (Cons url urls)
    show ?case
    proof (cases "csrf_in_outcome (result_of (session_get s url None None))")
      case None
      then show ?thesis
        using Cons.IH by (simp add: Let_def case_prod_beta io_simps)
    next
      case (Some found)
      then show ?thesis
        using csrf_found_quiet(1) [OF Some]
        by (simp add: Let_def case_prod_beta io_simps del: auth_runs_simps(3))
    qed
  qed
  show "page_requests (snd (csrf_scan s urls)) = []"
    by (induction urls arbitrary: s)
       (simp_all add: Let_def case_prod_beta io_simps split: option.split)
  show "page_answers (snd (csrf_scan s urls)) = []"
    by (induction urls arbitrary: s)
       (simp_all add: Let_def case_prod_beta io_simps split: option.split)
  show "page_failures lvl (snd (csrf_scan s urls)) = []"
  proof (induction urls arbitrary: s)
    case Nil
    show ?case by simp
  next
    case (Cons url urls)
    show ?case
    proof (cases "csrf_in_outcome (result_of (session_get s url None None))")
      case None
      then show ?thesis
        using Cons.IH by (simp add: Let_def case_prod_beta io_simps)
    next
      case (Some found)
      then show ?thesis
        using csrf_found_message [OF Some]
        by (auto simp: Let_def case_prod_beta io_simps)
    qed
  qed
  show "written (snd (csrf_scan s urls)) = []"
    by (induction urls arbitrary: s)
       (simp_all add: Let_def case_prod_beta io_simps split: option.split)
qed

lemma csrf_scan_frame:
  "username (fst (csrf_scan s urls)) = username s"
  "password (fst (csrf_scan s urls)) = password s"
  "base_url (fst (csrf_scan s urls)) = base_url s"
  "site_id (fst (csrf_scan s urls)) = site_id s"
  "verify_ssl (fst (csrf_scan s urls)) = verify_ssl s"
  "stats (fst (csrf_scan s urls)) = stats s"
  "session_authorization (fst (csrf_scan s urls)) = session_authorization s"
  by (induction urls arbitrary: s;
      simp add: Let_def case_prod_beta io_simps split: option.split)+

lemma csrf_scan_remote:
  "list_all P (remote s) \<Longrightarrow> list_all P (remote (fst (csrf_scan s urls)))"
  by (induction urls arbitrary: s)
     (simp_all add: Let_def case_prod_beta io_simps list_all_tl split: option.split)

lemma csrf_scan_credentials:
  "list_all (\<lambda>a. a = session_authorization s) (credentials_sent (snd (csrf_scan s urls)))"
proof (induction urls arbitrary: s)
  case Nil
  show ?case by simp
next
  case (Cons url urls)
  show ?case
    using Cons.IH [of "s\<lparr>remote := tl (remote s)\<rparr>"]
    by (simp add: Let_def case_prod_beta io_simps split: option.split)
qed



lemma reauthenticate_quiet:
  "sleeps (snd (reauthenticate s)) = []"
  "page_requests (snd (reauthenticate s)) = []"
  "page_answers (snd (reauthenticate s)) = []"
  "page_failures lvl (snd (reauthenticate s)) = []"
  "written (snd (reauthenticate s)) = []"
  by (simp_all add: reauthenticate_def case_prod_beta authenticate_comprehensive_quiet)

lemma reauthenticate_frame:
  "username (fst (reauthenticate s)) = username s"
  "password (fst (reauthenticate s)) = password s"
  "base_url (fst (reauthenticate s)) = base_url s"
  "site_id (fst (reauthenticate s)) = site_id s"
  "verify_ssl (fst (reauthenticate s)) = verify_ssl s"
  "stats (fst (reauthenticate s)) = stats s"
  by (simp_all add: reauthenticate_def case_prod_beta authenticate_comprehensive_frame)

lemma reauthenticate_remote:
  "list_all P (remote s) \<Longrightarrow> list_all P (remote (fst (reauthenticate s)))"
  by (simp add: reauthenticate_def case_prod_beta authenticate_comprehensive_remote)



lemma handle_failure_quiet:
  "sleeps (snd (handle_failure s url attempt f)) = []"
  "page_requests (snd (handle_failure s url attempt f)) = []"
  "page_answers (snd (handle_failure s url attempt f)) = []"
  "page_failures lvl (snd (handle_failure s url attempt f)) = []"
  "written (snd (handle_failure s url attempt f)) = []"
  by (simp_all add: handle_failure_def case_prod_beta reauthenticate_quiet
      split: failure.split)

lemma handle_failure_frame:
  "username (fst (handle_failure s url attempt f)) = username s"
  "password (fst (handle_failure s url attempt f)) = password s"
  "base_url (fst (handle_failure s url attempt f)) = base_url s"
  "site_id (fst (handle_failure s url attempt f)) = site_id s"
  "verify_ssl (fst (handle_failure s url attempt f)) = verify_ssl s"
  "stats (fst (handle_failure s url attempt f)) = stats s"
  by (simp_all add: handle_failure_def case_prod_beta reauthenticate_frame
      split: failure.split)

lemma handle_failure_remote:
  "list_all P (remote s) \<Longrightarrow> list_all P (remote (fst (handle_failure s url attempt f)))"
  by (simp add: handle_failure_def case_prod_beta reauthenticate_remote
      split: failure.split)

lemma api_get_events:
  "events_of (api_get s url params) =
     [Http \<lparr>req_method = GET, req_url = url, req_params = params,
            req_authorization = session_authorization s,
            req_csrf = (if truthy_str (csrf_token s) then csrf_token s else session_csrf s),
            req_form = []\<rparr>
        (result_of (api_get s url params))]"
  by (cases "csrf_token s") (simp_all add: api_get_def session_get_events)

lemma api_get_state: "state_of (api_get s url params) = s\<lparr>remote := tl (remote s)\<rparr>"
  by (simp add: api_get_def session_get_state)

lemma api_get_result:
  "result_of (api_get s url params) =
     (case remote s of [] \<Rightarrow> RaiseOther | out # rest \<Rightarrow> out)"
  by (simp add: api_get_def session_get_result)

lemma api_get_retryable:
  "list_all retryable (remote s) \<Longrightarrow> retryable (result_of (api_get s url params))"
  by (cases "remote s") (simp_all add: api_get_result retryable_def classify_def)

text \<open>One unfolding of the loop, by how the attempt ends.\<close>

lemma request_loop_done:
  "max_retries \<le> attempt \<Longrightarrow> request_loop s url params max_retries attempt = (None, s, [])"
  by (subst request_loop.simps) simp

lemma request_loop_returned:
  "attempt < max_retries \<Longrightarrow> classify (result_of (api_get s url params)) = Returned d \<Longrightarrow>
   request_loop s url params max_retries attempt =
     (Some d, state_of (api_get s url params), events_of (api_get s url params))"
  by (subst request_loop.simps) (simp add: case_prod_beta)

lemma request_loop_tls:
  "attempt < max_retries \<Longrightarrow> classify (result_of (api_get s url params)) = TlsError \<Longrightarrow>
   request_loop s url params max_retries attempt =
     (None, state_of (api_get s url params),
      events_of (api_get s url params) @ tls_log (state_of (api_get s url params)))"
  by (subst request_loop.simps) (simp add: case_prod_beta)

lemma request_loop_retry:
  "attempt + 1 < max_retries \<Longrightarrow> classify (result_of (api_get s url params)) = Failure f \<Longrightarrow>
   request_loop s url params max_retries attempt =
     (let h = handle_failure (state_of (api_get s url params)) url attempt f;
          r = request_loop (fst h) url params max_retries (attempt + 1)
      in (result_of r, state_of r,
          events_of (api_get s url params) @ snd h @ Sleep (2 ^ attempt) # events_of r))"
  by (subst request_loop.simps) (simp add: case_prod_beta Let_def)

lemma request_loop_give_up:
  "attempt < max_retries \<Longrightarrow> \<not> attempt + 1 < max_retries \<Longrightarrow>
   classify (result_of (api_get s url params)) = Failure f \<Longrightarrow>
   request_loop s url params max_retries attempt =
     (let h = handle_failure (state_of (api_get s url params)) url attempt f
      in (None, count_error (fst h), events_of (api_get s url params) @ snd h))"
  by (subst request_loop.simps) (simp add: case_prod_beta Let_def)

text \<open>The cases of the loop, for proofs by induction on what is left of the budget.\<close>

lemma request_loop_cases:
  assumes "max_retries \<le> (attempt :: nat) \<Longrightarrow> P"
    and "\<And>d. attempt < max_retries \<Longrightarrow>
           classify (result_of (api_get s url params)) = Returned d \<Longrightarrow> P"
    and "attempt < max_retries \<Longrightarrow>
           classify (result_of (api_get s url params)) = TlsError \<Longrightarrow> P"
    and "\<And>f. attempt + 1 < max_retries \<Longrightarrow>
           classify (result_of (api_get s url params)) = Failure f \<Longrightarrow> P"
    and "\<And>f. attempt < max_retries \<Longrightarrow> \<not> attempt + 1 < max_retries \<Longrightarrow>
           classify (result_of (api_get s url params)) = Failure f \<Longrightarrow> P"
  shows P
proof (cases "attempt < max_retries")
  case False
  then have "max_retries \<le> attempt" by simp
  then show ?thesis by (rule assms(1))
next
  case True
  show ?thesis
  proof (cases "classify (result_of (api_get s url params))")
    case (Returned d)
    then show ?thesis using assms(2) True by blast
  next
    case TlsError
    then show ?thesis using assms(3) True by blast
  next
    case (Failure f)
    then show ?thesis using assms(4,5) True by blast
  qed
qed


lemma ensure_csrf_quiet:
  "sleeps (snd (ensure_csrf s)) = []"
  "auth_runs (snd (ensure_csrf s)) = 0"
  "page_requests (snd (ensure_csrf s)) = []"
  "page_answers (snd (ensure_csrf s)) = []"
  "page_failures lvl (snd (ensure_csrf s)) = []"
  "written (snd (ensure_csrf s)) = []"
  by (simp_all add: ensure_csrf_def find_csrf_token_def csrf_scan_quiet)

lemma ensure_csrf_frame:
  "username (fst (ensure_csrf s)) = username s"
  "password (fst (ensure_csrf s)) = password s"
  "base_url (fst (ensure_csrf s)) = base_url s"
  "site_id (fst (ensure_csrf s)) = site_id s"
  "verify_ssl (fst (ensure_csrf s)) = verify_ssl s"
  "stats (fst (ensure_csrf s)) = stats s"
  "session_authorization (fst (ensure_csrf s)) = session_authorization s"
  by (simp_all add: ensure_csrf_def find_csrf_token_def csrf_scan_frame)

lemma ensure_csrf_remote:
  "list_all P (remote s) \<Longrightarrow> list_all P (remote (fst (ensure_csrf s)))"
  by (simp add: ensure_csrf_def find_csrf_token_def csrf_scan_remote)

lemma make_request_unfold:
  "make_request s url params max_retries =
     (let r = request_loop (fst (ensure_csrf s)) url params max_retries 0
      in (result_of r, state_of r, snd (ensure_csrf s) @ events_of r))"
  by (simp add: make_request_def case_prod_beta Let_def)




text \<open>When nothing but retryable failures comes back, the budget is used up.\<close>

lemma request_loop_exhausted:
  assumes "attempt < max_retries" and "list_all retryable (remote s)"
  shows "result_of (request_loop s url params max_retries attempt) = None
       \<and> errors (stats (state_of (request_loop s url params max_retries attempt)))
           = errors (stats s) + 1
       \<and> sleeps (events_of (request_loop s url params max_retries attempt))
           = map (\<lambda>a. 2 ^ a) [attempt ..< max_retries - 1]"
  using assms
proof (induction "max_retries - attempt" arbitrary: s attempt)
  case 0
  then show ?case by simp
next
  case (Suc k)
  let ?out = "result_of (api_get s url params)"
  let ?s1 = "state_of (api_get s url params)"
  have "retryable ?out"
    using Suc.prems(2) by (rule api_get_retryable)
  then obtain f where f: "classify ?out = Failure f"
    by (auto simp: retryable_def split: verdict.splits)
  let ?h = "handle_failure ?s1 url attempt f"
  have remote1: "list_all retryable (remote ?s1)"
    using Suc.prems(2) by (simp add: api_get_state list_all_tl)
  have remote2: "list_all retryable (remote (fst ?h))"
    using remote1 by (rule handle_failure_remote)
  have stats2: "stats (fst ?h) = stats s"
    by (simp add: handle_failure_frame api_get_state)
  show ?case
  proof (cases "attempt + 1 < max_retries")
    case True
    let ?r = "request_loop (fst ?h) url params max_retries (attempt + 1)"
    have k: "k = max_retries - (attempt + 1)"
      using Suc.hyps(2) by simp
    have ih: "result_of ?r = None
        \<and> errors (stats (state_of ?r)) = errors (stats (fst ?h)) + 1
        \<and> sleeps (events_of ?r) = map (\<lambda>a. 2 ^ a) [attempt + 1 ..< max_retries - 1]"
      by (rule Suc.hyps(1) [OF k True remote2])
    have up: "[attempt ..< max_retries - Suc 0] = attempt # [Suc attempt ..< max_retries - Suc 0]"
      using True by (simp add: upt_conv_Cons)
    show ?thesis
      using True f ih stats2
      by (simp add: request_loop_retry Let_def api_get_events handle_failure_quiet up)
  next
    case False
    then have "[attempt ..< max_retries - 1] = []"
      by simp
    then show ?thesis
      using False Suc.prems(1) f stats2
      by (simp add: request_loop_give_up Let_def api_get_events handle_failure_quiet
          count_error_def)
  qed
qed

text \<open>The error counter moves only when the loop gives up.\<close>

lemma request_loop_errors:
  "errors (stats (state_of (request_loop s url params max_retries attempt))) =
     errors (stats s)
   \<or> (result_of (request_loop s url params max_retries attempt) = None
      \<and> errors (stats (state_of (request_loop s url params max_retries attempt))) =
          errors (stats s) + 1)"
proof (induction "max_retries - attempt" arbitrary: s attempt)
  case 0
  then show ?case by (simp add: request_loop_done)
next
  case (Suc k)
  let ?out = "result_of (api_get s url params)"
  let ?s1 = "state_of (api_get s url params)"
  show ?case
  proof (rule request_loop_cases [where max_retries = max_retries and attempt = attempt
        and s = s and url = url and params = params])
    assume "max_retries \<le> attempt"
    then show ?thesis using Suc.hyps(2) by simp
  next
    fix d assume "attempt < max_retries" "classify ?out = Returned d"
    then show ?thesis by (simp add: request_loop_returned api_get_state)
  next
    assume "attempt < max_retries" "classify ?out = TlsError"
    then show ?thesis by (simp add: request_loop_tls api_get_state)
  next
    fix f assume more: "attempt + 1 < max_retries" and f: "classify ?out = Failure f"
    let ?h = "handle_failure ?s1 url attempt f"
    have k: "k = max_retries - (attempt + 1)"
      using Suc.hyps(2) by simp
    have stats2: "stats (fst ?h) = stats s"
      by (simp add: handle_failure_frame api_get_state)
    show ?thesis
      using more f Suc.hyps(1) [OF k, of "fst ?h"] stats2
      by (simp add: request_loop_retry Let_def)
  next
    fix f assume last: "attempt < max_retries" "\<not> attempt + 1 < max_retries"
      and f: "classify ?out = Failure f"
    have stats2: "stats (fst (handle_failure ?s1 url attempt f)) = stats s"
      by (simp add: handle_failure_frame api_get_state)
    show ?thesis
      using last f stats2
      by (simp add: request_loop_give_up Let_def count_error_def)
  qed
qed


section \<open>Pagination: what one request and one pass of the loop leave in the record\<close>

lemma request_loop_induct' [consumes 0, case_names finished returned tls retry give_up]:
  assumes "\<And>s attempt. max_retries \<le> attempt \<Longrightarrow> P s attempt"
    and "\<And>s attempt d. attempt < max_retries \<Longrightarrow>
           classify (result_of (api_get s url params)) = Returned d \<Longrightarrow> P s attempt"
    and "\<And>s attempt. attempt < max_retries \<Longrightarrow>
           classify (result_of (api_get s url params)) = TlsError \<Longrightarrow> P s attempt"
    and "\<And>s attempt f. attempt + 1 < max_retries \<Longrightarrow>
           classify (result_of (api_get s url params)) = Failure f \<Longrightarrow>
           P (fst (handle_failure (state_of (api_get s url params)) url attempt f))
             (attempt + 1) \<Longrightarrow>
           P s attempt"
    and "\<And>s attempt f. attempt < max_retries \<Longrightarrow> \<not> attempt + 1 < max_retries \<Longrightarrow>
           classify (result_of (api_get s url params)) = Failure f \<Longrightarrow> P s attempt"
  shows "P s (attempt :: nat)"
proof (induction "max_retries - attempt" arbitrary: s attempt)
  case 0
  then have "max_retries \<le> attempt" by simp
  then show ?case by (rule assms(1))
next
  case (Suc k)
  show ?case
  proof (rule request_loop_cases [where max_retries = max_retries and attempt = attempt
        and s = s and url = url and params = params])
    assume "max_retries \<le> attempt"
    then show ?thesis by (rule assms(1))
  next
    fix d assume "attempt < max_retries"
      "classify (result_of (api_get s url params)) = Returned d"
    then show ?thesis by (rule assms(2))
  next
    assume "attempt < max_retries"
      "classify (result_of (api_get s url params)) = TlsError"
    then show ?thesis by (rule assms(3))
  next
    fix f assume more: "attempt + 1 < max_retries"
      and f: "classify (result_of (api_get s url params)) = Failure f"
    have k: "k = max_retries - (attempt + 1)"
      using Suc.hyps(2) by simp
    show ?thesis
      by (rule assms(4) [OF more f]) (rule Suc.hyps(1) [OF k])
  next
    fix f assume "attempt < max_retries" "\<not> attempt + 1 < max_retries"
      "classify (result_of (api_get s url params)) = Failure f"
    then show ?thesis by (rule assms(5))
  qed
qed

lemma request_loop_page_requests:
  "list_all (\<lambda>q. q = p)
     (page_requests (events_of (request_loop s url (Some p) max_retries attempt)))"
proof (induction s attempt rule: request_loop_induct'
    [where max_retries = max_retries and url = url and params = "Some p"])
  case (finished s attempt)
  then show ?case by (simp add: request_loop_done)
next
  case (returned s attempt d)
  then show ?case by (simp add: request_loop_returned api_get_events)
next
  case (tls s attempt)
  then show ?case by (simp add: request_loop_tls api_get_events tls_log_def)
next
  case (retry s attempt f)
  then show ?case
    by (simp add: request_loop_retry Let_def api_get_events handle_failure_quiet)
next
  case (give_up s attempt f)
  then show ?case
    by (simp add: request_loop_give_up Let_def api_get_events handle_failure_quiet)
qed

lemma request_loop_page_requests_nonempty:
  "attempt < max_retries \<Longrightarrow>
   page_requests (events_of (request_loop s url (Some p) max_retries attempt)) \<noteq> []"
  by (rule request_loop_cases [where max_retries = max_retries and attempt = attempt
        and s = s and url = url and params = "Some p"])
     (simp_all add: request_loop_returned request_loop_tls request_loop_retry
        request_loop_give_up Let_def api_get_events)

lemma request_loop_page_answers:
  "page_answers (events_of (request_loop s url (Some p) max_retries attempt)) =
     (case result_of (request_loop s url (Some p) max_retries attempt) of
        Some d \<Rightarrow> [(fst p, d)]
      | None \<Rightarrow> [])"
proof (induction s attempt rule: request_loop_induct'
    [where max_retries = max_retries and url = url and params = "Some p"])
  case (finished s attempt)
  then show ?case by (simp add: request_loop_done)
next
  case (returned s attempt d)
  then show ?case by (simp add: request_loop_returned api_get_events)
next
  case (tls s attempt)
  then show ?case by (simp add: request_loop_tls api_get_events tls_log_def)
next
  case (retry s attempt f)
  then show ?case
    by (simp add: request_loop_retry Let_def api_get_events handle_failure_quiet)
next
  case (give_up s attempt f)
  then show ?case
    by (simp add: request_loop_give_up Let_def api_get_events handle_failure_quiet)
qed

lemma request_loop_no_params:
  "page_requests (events_of (request_loop s url None max_retries attempt)) = []
   \<and> page_answers (events_of (request_loop s url None max_retries attempt)) = []"
proof (induction s attempt rule: request_loop_induct'
    [where max_retries = max_retries and url = url and params = None])
  case (finished s attempt)
  then show ?case by (simp add: request_loop_done)
next
  case (returned s attempt d)
  then show ?case by (simp add: request_loop_returned api_get_events)
next
  case (tls s attempt)
  then show ?case by (simp add: request_loop_tls api_get_events tls_log_def)
next
  case (retry s attempt f)
  then show ?case
    by (simp add: request_loop_retry Let_def api_get_events handle_failure_quiet)
next
  case (give_up s attempt f)
  then show ?case
    by (simp add: request_loop_give_up Let_def api_get_events handle_failure_quiet)
qed

lemma request_loop_page_failures:
  "page_failures lvl (events_of (request_loop s url params max_retries attempt)) = []"
proof (induction s attempt rule: request_loop_induct'
    [where max_retries = max_retries and url = url and params = params])
  case (finished s attempt)
  then show ?case by (simp add: request_loop_done)
next
  case (returned s attempt d)
  then show ?case by (simp add: request_loop_returned api_get_events)
next
  case (tls s attempt)
  then show ?case by (simp add: request_loop_tls api_get_events tls_log_def)
next
  case (retry s attempt f)
  then show ?case
    by (simp add: request_loop_retry Let_def api_get_events handle_failure_quiet)
next
  case (give_up s attempt f)
  then show ?case
    by (simp add: request_loop_give_up Let_def api_get_events handle_failure_quiet)
qed


text \<open>The same facts for \<^verbatim>\<open>make_request\<close>.\<close>

lemma make_request_page_requests:
  "list_all (\<lambda>q. q = p) (page_requests (events_of (make_request s url (Some p) max_retries)))"
  by (simp add: make_request_unfold Let_def ensure_csrf_quiet request_loop_page_requests)

lemma make_request_page_requests_nonempty:
  "0 < max_retries \<Longrightarrow>
   page_requests (events_of (make_request s url (Some p) max_retries)) \<noteq> []"
  by (simp add: make_request_unfold Let_def ensure_csrf_quiet
      request_loop_page_requests_nonempty)

lemma make_request_page_answers:
  "page_answers (events_of (make_request s url (Some p) max_retries)) =
     (case result_of (make_request s url (Some p) max_retries) of
        Some d \<Rightarrow> [(fst p, d)]
      | None \<Rightarrow> [])"
  by (simp add: make_request_unfold Let_def ensure_csrf_quiet request_loop_page_answers)

lemma make_request_no_params:
  "page_requests (events_of (make_request s url None max_retries)) = []"
  "page_answers (events_of (make_request s url None max_retries)) = []"
  by (simp_all add: make_request_unfold Let_def ensure_csrf_quiet request_loop_no_params)

lemma make_request_page_failures:
  "page_failures lvl (events_of (make_request s url params max_retries)) = []"
  by (simp add: make_request_unfold Let_def ensure_csrf_quiet request_loop_page_failures)


lemma make_request_errors:
  "errors (stats (state_of (make_request s url params max_retries))) = errors (stats s)
   \<or> (result_of (make_request s url params max_retries) = None
      \<and> errors (stats (state_of (make_request s url params max_retries)))
          = errors (stats s) + 1)"
  using request_loop_errors [of "fst (ensure_csrf s)" url params max_retries 0]
  by (simp add: make_request_unfold Let_def ensure_csrf_frame)

lemma make_request_errors_got:
  "got (result_of (make_request s url params max_retries)) \<Longrightarrow>
   errors (stats (state_of (make_request s url params max_retries))) = errors (stats s)"
  using make_request_errors [of s url params max_retries] by (auto simp: got_def)

lemma last_page_requested:
  "list_all (\<lambda>q. q = p) xs \<Longrightarrow> xs \<noteq> [] \<Longrightarrow> last (map fst xs) = fst p"
  by (induction xs) (auto split: if_splits)

text \<open>How one pass of the loop ends, read off the body that came back.\<close>

lemma falsy_items: "\<not> truthy d \<Longrightarrow> taken_items d = []"
  by (cases d) (simp_all add: taken_items_def page_items_def dict_get_def)

lemma page_step_Failed:
  "page_step data_key page total_pages data = Failed \<longleftrightarrow> \<not> got data"
  by (auto simp: page_step_def got_def Let_def split: option.splits sum.splits)

lemma page_step_NoData:
  assumes "page_step data_key page total_pages data = NoData e"
  shows "\<exists>d. data = Some d \<and> page = 1 \<and> reports_nothing d
           \<and> page_failures lvl e = [] \<and> page_requests e = [] \<and> page_answers e = []
           \<and> written e = []"
  using assms
  by (auto simp: page_step_def got_def Let_def page_totals_def reports_nothing_def
      split: option.splits sum.splits if_splits)

lemma page_step_LastPage:
  assumes "page_step data_key page total_pages data = LastPage items e"
  shows "\<exists>d. data = Some d \<and> truthy d \<and> taken_items d = items
           \<and> (page = 1 \<longrightarrow> \<not> reports_nothing d)
           \<and> page_failures lvl e = [] \<and> page_requests e = [] \<and> page_answers e = []
           \<and> written e = []"
  using assms
  by (auto simp: page_step_def got_def Let_def page_totals_def reports_nothing_def
      taken_items_def split: option.splits sum.splits if_splits)

lemma page_step_MorePages:
  assumes "page_step data_key page total_pages data = MorePages last_page items e"
  shows "\<exists>d. data = Some d \<and> truthy d \<and> taken_items d = items
           \<and> (page = 1 \<longrightarrow> \<not> reports_nothing d)
           \<and> page_failures lvl e = [] \<and> page_requests e = [] \<and> page_answers e = []
           \<and> written e = []"
  using assms
  by (auto simp: page_step_def got_def Let_def page_totals_def reports_nothing_def
      taken_items_def split: option.splits sum.splits if_splits)

lemma page_step_Raised:
  assumes "page_step data_key page total_pages data = Raised err e"
  shows "\<exists>d. data = Some d \<and> truthy d
           \<and> page_failures lvl e = [] \<and> page_requests e = [] \<and> page_answers e = []
           \<and> written e = []"
  using assms
  by (auto simp: page_step_def got_def Let_def
      split: option.splits sum.splits if_splits)


section \<open>The loop over the pages\<close>

lemma make_request_page_bodies:
  "page_bodies (events_of (make_request s url (Some p) max_retries)) =
     (case result_of (make_request s url (Some p) max_retries) of
        Some d \<Rightarrow> [d]
      | None \<Rightarrow> [])"
  by (simp add: page_bodies_def make_request_page_answers split: option.split)

lemma no_answers_no_bodies: "page_answers e = [] \<Longrightarrow> page_bodies e = []"
  by (simp add: page_bodies_def)

lemma collect_pages_unfold:
  "collect_pages s url data_key page_size page total_pages all_data =
     (let mr = make_request s url (Some (page, page_size)) default_max_retries
      in case page_step data_key page total_pages (result_of mr) of
           Failed \<Rightarrow>
             (Inr all_data, state_of mr,
              events_of mr @ [Log ERROR (PageFailed data_key page)])
         | Raised err e \<Rightarrow> (Inl err, state_of mr, events_of mr @ e)
         | NoData e \<Rightarrow> (Inr all_data, state_of mr, events_of mr @ e)
         | LastPage items e \<Rightarrow> (Inr (all_data @ items), state_of mr, events_of mr @ e)
         | MorePages last_page items e \<Rightarrow>
             (let r = collect_pages (state_of mr) url data_key page_size (page + 1)
                        last_page (all_data @ items)
              in (result_of r, state_of r, events_of mr @ e @ Pause # events_of r)))"
  by (subst collect_pages.simps) (simp add: case_prod_beta Let_def split: page_end.split)

lemma collect_pages_induct':
  assumes "\<And>s url data_key page_size page total_pages all_data.
      (\<And>last_page items e.
          page_step data_key page total_pages
            (result_of (make_request s url (Some (page, page_size)) default_max_retries))
            = MorePages last_page items e \<Longrightarrow>
          P (state_of (make_request s url (Some (page, page_size)) default_max_retries))
            url data_key page_size (page + 1) last_page (all_data @ items)) \<Longrightarrow>
      P s url data_key page_size page total_pages all_data"
  shows "P s url data_key page_size page total_pages all_data"
proof (induction s url data_key page_size page total_pages all_data rule: collect_pages.induct)
  case (1 s url data_key page_size page total_pages all_data)
  show ?case
  proof (rule assms)
    fix last_page items e
    assume "page_step data_key page total_pages
              (result_of (make_request s url (Some (page, page_size)) default_max_retries))
            = MorePages last_page items e"
    then show "P (state_of (make_request s url (Some (page, page_size)) default_max_retries))
                 url data_key page_size (page + 1) last_page (all_data @ items)"
      by (rule 1 [OF refl prod.collapse prod.collapse])
  qed
qed

text \<open>The items returned are the items of the bodies that came back, in order, unless the first page reports no records.\<close>

lemma collect_pages_items:
  assumes "1 \<le> page"
    and "result_of (collect_pages s url data_key page_size page total_pages all_data) = Inr items"
  shows "items = all_data @
           (if page = 1 \<and> no_records (page_bodies (events_of
                 (collect_pages s url data_key page_size page total_pages all_data)))
            then []
            else concat (map taken_items (page_bodies (events_of
                 (collect_pages s url data_key page_size page total_pages all_data)))))"
  using assms
proof (induction s url data_key page_size page total_pages all_data
    rule: collect_pages_induct')
  case (1 s url data_key page_size page total_pages all_data)
  let ?mr = "make_request s url (Some (page, page_size)) default_max_retries"
  show ?case
  proof (cases "page_step data_key page total_pages (result_of ?mr)")
    case Failed
    then have "\<not> got (result_of ?mr)"
      by (simp add: page_step_Failed)
    then have "concat (map taken_items (page_bodies (events_of ?mr))) = []"
      and "\<not> no_records (page_bodies (events_of ?mr))"
      by (auto simp: make_request_page_bodies got_def falsy_items no_records_def
          reports_nothing_def split: option.splits)
    then show ?thesis
      using Failed "1.prems"(2) by (simp add: collect_pages_unfold Let_def)
  next
    case (Raised err e)
    then show ?thesis
      using "1.prems"(2) by (simp add: collect_pages_unfold Let_def)
  next
    case (NoData e)
    from page_step_NoData [OF this]
    obtain d where d: "result_of ?mr = Some d" "page = 1" "reports_nothing d"
      "page_answers e = []"
      by blast
    then show ?thesis
      using NoData "1.prems"(2)
      by (simp add: collect_pages_unfold Let_def make_request_page_bodies
          no_answers_no_bodies no_records_def)
  next
    case (LastPage its e)
    from page_step_LastPage [OF this]
    obtain d where d: "result_of ?mr = Some d" "taken_items d = its"
      "page = 1 \<longrightarrow> \<not> reports_nothing d" "page_answers e = []"
      by blast
    then show ?thesis
      using LastPage "1.prems"(2)
      by (auto simp: collect_pages_unfold Let_def make_request_page_bodies
          no_answers_no_bodies no_records_def)
  next
    case (MorePages last_page its e)
    let ?r = "collect_pages (state_of ?mr) url data_key page_size (page + 1) last_page
                (all_data @ its)"
    from page_step_MorePages [OF MorePages]
    obtain d where d: "result_of ?mr = Some d" "taken_items d = its"
      "page = 1 \<longrightarrow> \<not> reports_nothing d" "page_answers e = []"
      by blast
    have res: "result_of ?r = Inr items"
      using MorePages "1.prems"(2) by (simp add: collect_pages_unfold Let_def)
    have "items = (all_data @ its) @ concat (map taken_items (page_bodies (events_of ?r)))"
      using "1.IH" [OF MorePages _ res] "1.prems"(1) by simp
    then show ?thesis
      using MorePages d
      by (auto simp: collect_pages_unfold Let_def make_request_page_bodies
          no_answers_no_bodies no_records_def)
  qed
qed

lemma upt_fst_Cons:
  assumes "map fst xs = [page + 1 ..< page + 1 + length xs]"
  shows "map fst ((page, d) # xs) = [page ..< page + length ((page, d) # xs)]"
proof -
  have "page < page + length ((page, d) # xs)"
    by simp
  then have "[page ..< page + length ((page, d) # xs)] =
      page # [Suc page ..< page + length ((page, d) # xs)]"
    by (rule upt_conv_Cons)
  moreover have "Suc page = page + 1"
    and "page + length ((page, d) # xs) = page + 1 + length xs"
    by simp_all
  ultimately have "[page ..< page + length ((page, d) # xs)] =
      page # [page + 1 ..< page + 1 + length xs]"
    by (simp only:)
  moreover have "map fst ((page, d) # xs) = page # map fst xs"
    by simp
  ultimately show ?thesis
    using assms by (simp only:)
qed

text \<open>The answers came page by page, in ascending order.\<close>

lemma collect_pages_answers:
  "map fst (page_answers (events_of
       (collect_pages s url data_key page_size page total_pages all_data))) =
     [page ..< page + length (page_answers (events_of
       (collect_pages s url data_key page_size page total_pages all_data)))]"
proof (induction s url data_key page_size page total_pages all_data
    rule: collect_pages_induct')
  case (1 s url data_key page_size page total_pages all_data)
  let ?mr = "make_request s url (Some (page, page_size)) default_max_retries"
  have one: "map fst (page_answers (events_of ?mr)) =
      [page ..< page + length (page_answers (events_of ?mr))]"
    by (simp add: make_request_page_answers split: option.split)
  show ?case
  proof (cases "page_step data_key page total_pages (result_of ?mr)")
    case Failed
    then show ?thesis
      using one by (simp add: collect_pages_unfold Let_def)
  next
    case (Raised err e)
    from page_step_Raised [OF this] have "page_answers e = []" by blast
    then show ?thesis
      using Raised one by (simp add: collect_pages_unfold Let_def)
  next
    case (NoData e)
    from page_step_NoData [OF this] have "page_answers e = []" by blast
    then show ?thesis
      using NoData one by (simp add: collect_pages_unfold Let_def)
  next
    case (LastPage its e)
    from page_step_LastPage [OF this] have "page_answers e = []" by blast
    then show ?thesis
      using LastPage one by (simp add: collect_pages_unfold Let_def)
  next
    case (MorePages last_page its e)
    let ?r = "collect_pages (state_of ?mr) url data_key page_size (page + 1) last_page
                (all_data @ its)"
    from page_step_MorePages [OF MorePages]
    obtain d where d: "result_of ?mr = Some d" "page_answers e = []"
      by blast
    have first: "page_answers (events_of ?mr) = [(page, d)]"
      using d(1) by (simp add: make_request_page_answers)
    have ev: "page_answers (events_of
          (collect_pages s url data_key page_size page total_pages all_data)) =
        (page, d) # page_answers (events_of ?r)"
      using MorePages d(2) first by (simp add: collect_pages_unfold Let_def)
    have "map fst ((page, d) # page_answers (events_of ?r)) =
        [page ..< page + length ((page, d) # page_answers (events_of ?r))]"
      by (rule upt_fst_Cons) (rule "1.IH" [OF MorePages])
    then show ?thesis
      unfolding ev .
  qed
qed

text \<open>
  A page is reported as failed, at the level ERROR and nowhere else, exactly when the
  last page asked for did not bring a usable body.
\<close>

lemma collect_pages_failures:
  "page_requests (events_of
       (collect_pages s url data_key page_size page total_pages all_data)) \<noteq> []
   \<and> page \<le> last (map fst (page_requests (events_of
       (collect_pages s url data_key page_size page total_pages all_data))))
   \<and> page_failures lvl (events_of
       (collect_pages s url data_key page_size page total_pages all_data)) =
       (if lvl = ERROR
           \<and> length (filter truthy (page_bodies (events_of
                (collect_pages s url data_key page_size page total_pages all_data)))) + page
              \<le> last (map fst (page_requests (events_of
                (collect_pages s url data_key page_size page total_pages all_data))))
        then [(data_key, last (map fst (page_requests (events_of
                (collect_pages s url data_key page_size page total_pages all_data)))))]
        else [])"
proof (induction s url data_key page_size page total_pages all_data
    rule: collect_pages_induct')
  case (1 s url data_key page_size page total_pages all_data)
  let ?mr = "make_request s url (Some (page, page_size)) default_max_retries"
  let ?xs = "page_requests (events_of ?mr)"
  have xs: "?xs \<noteq> []" "last (map fst ?xs) = page"
  proof -
    show ne: "?xs \<noteq> []"
      by (rule make_request_page_requests_nonempty) (simp add: default_max_retries_def)
    show "last (map fst ?xs) = page"
      using last_page_requested [OF make_request_page_requests ne] by simp
  qed
  have quiet: "page_failures lvl (events_of ?mr) = []"
    by (rule make_request_page_failures)
  show ?case
  proof (cases "page_step data_key page total_pages (result_of ?mr)")
    case Failed
    then have "\<not> got (result_of ?mr)"
      by (simp add: page_step_Failed)
    then have "filter truthy (page_bodies (events_of ?mr)) = []"
      by (auto simp: make_request_page_bodies got_def split: option.splits)
    then show ?thesis
      using Failed xs quiet by (auto simp: collect_pages_unfold Let_def)
  next
    case (Raised err e)
    from page_step_Raised [OF this, of lvl]
    obtain d where d: "result_of ?mr = Some d" "truthy d" "page_failures lvl e = []"
      "page_requests e = []" "page_answers e = []"
      by blast
    then show ?thesis
      using Raised xs quiet
      by (simp add: collect_pages_unfold Let_def make_request_page_bodies
          no_answers_no_bodies)
  next
    case (NoData e)
    from page_step_NoData [OF this, of lvl]
    obtain d where d: "result_of ?mr = Some d" "reports_nothing d" "page_failures lvl e = []"
      "page_requests e = []" "page_answers e = []"
      by blast
    then show ?thesis
      using NoData xs quiet
      by (simp add: collect_pages_unfold Let_def make_request_page_bodies
          no_answers_no_bodies reports_nothing_def)
  next
    case (LastPage its e)
    from page_step_LastPage [OF this, of lvl]
    obtain d where d: "result_of ?mr = Some d" "truthy d" "page_failures lvl e = []"
      "page_requests e = []" "page_answers e = []"
      by blast
    then show ?thesis
      using LastPage xs quiet
      by (simp add: collect_pages_unfold Let_def make_request_page_bodies
          no_answers_no_bodies)
  next
    case (MorePages last_page its e)
    let ?r = "collect_pages (state_of ?mr) url data_key page_size (page + 1) last_page
                (all_data @ its)"
    let ?ys = "page_requests (events_of ?r)"
    from page_step_MorePages [OF MorePages, of lvl]
    obtain d where d: "result_of ?mr = Some d" "truthy d" "page_failures lvl e = []"
      "page_requests e = []" "page_answers e = []"
      by blast
    have ih: "?ys \<noteq> []" "page + 1 \<le> last (map fst ?ys)"
      "page_failures lvl (events_of ?r) =
         (if lvl = ERROR
             \<and> length (filter truthy (page_bodies (events_of ?r))) + (page + 1)
                \<le> last (map fst ?ys)
          then [(data_key, last (map fst ?ys))] else [])"
      using "1.IH" [OF MorePages] by simp_all
    have ev: "events_of (collect_pages s url data_key page_size page total_pages all_data) =
        events_of ?mr @ e @ Pause # events_of ?r"
      using MorePages by (simp add: collect_pages_unfold Let_def)
    have reqs: "page_requests (events_of
          (collect_pages s url data_key page_size page total_pages all_data)) = ?xs @ ?ys"
      unfolding ev using d(4) by simp
    have lst: "last (map fst (?xs @ ?ys)) = last (map fst ?ys)"
      using ih(1) by simp
    have bodies: "filter truthy (page_bodies (events_of
          (collect_pages s url data_key page_size page total_pages all_data))) =
        d # filter truthy (page_bodies (events_of ?r))"
      unfolding ev using d(1,2,5)
      by (simp add: make_request_page_bodies no_answers_no_bodies)
    have fails: "page_failures lvl (events_of
          (collect_pages s url data_key page_size page total_pages all_data)) =
        page_failures lvl (events_of ?r)"
      unfolding ev using d(3) quiet by simp
    show ?thesis
      unfolding reqs lst bodies fails using ih xs(1) by auto
  qed
qed

text \<open>On bodies that can be processed the loop ends without an exception.\<close>

lemma comparable_any: "comparable v \<Longrightarrow> \<exists>b. py_ge page v = Inr b"
  by (cases v) (simp_all add: comparable_def)

lemma iterable_iter: "iterable v \<Longrightarrow> \<exists>xs. py_iter v = Inr xs"
  by (cases v) (simp_all add: iterable_def)

lemma page_step_Raised_processable:
  assumes "page_step data_key page total_pages (Some d) = Raised err e"
    and "processable d" and "page \<noteq> 1 \<longrightarrow> comparable total_pages"
  shows False
proof (cases d)
  case (JObj kv)
  have it: "\<exists>xs. py_iter (dict_get kv ''items'' (JArr [])) = Inr xs"
    using assms(2) JObj by (auto simp: processable_def intro: iterable_iter)
  have lp: "\<exists>b. py_ge page (dict_get kv ''lastPage'' (JInt 1)) = Inr b"
    using assms(2) JObj by (auto simp: processable_def intro: comparable_any)
  have tp: "page \<noteq> 1 \<Longrightarrow> \<exists>b. py_ge page total_pages = Inr b"
    using assms(3) by (auto intro: comparable_any)
  show ?thesis
    using assms(1) JObj it lp tp
    by (auto simp: page_step_def Let_def page_totals_def page_items_def got_def
        split: if_splits sum.splits)
next
  case JNull
  then show ?thesis using assms(1) by (simp add: page_step_def got_def)
next
  case (JBool b)
  then show ?thesis using assms(1,2) by (simp add: page_step_def got_def processable_def)
next
  case (JInt i)
  then show ?thesis using assms(1,2) by (simp add: page_step_def got_def processable_def)
next
  case (JStr t)
  then show ?thesis using assms(1,2) by (simp add: page_step_def got_def processable_def)
next
  case (JArr xs)
  then show ?thesis using assms(1,2) by (simp add: page_step_def got_def processable_def)
qed

lemma py_ge_comparable: "py_ge page v = Inr b \<Longrightarrow> comparable v"
  by (cases v) (simp_all add: comparable_def)

lemma page_step_MorePages_comparable:
  assumes "page_step data_key page total_pages data = MorePages last_page items e"
  shows "comparable last_page"
proof -
  have "py_ge page last_page = Inr False"
    using assms
    by (auto simp: page_step_def Let_def got_def split: if_splits option.splits sum.splits)
  then show ?thesis by (rule py_ge_comparable)
qed

lemma collect_pages_returns:
  assumes "list_all processable (page_bodies (events_of
             (collect_pages s url data_key page_size page total_pages all_data)))"
    and "page \<noteq> 1 \<longrightarrow> comparable total_pages"
  shows "\<not> isl (result_of (collect_pages s url data_key page_size page total_pages all_data))"
  using assms
proof (induction s url data_key page_size page total_pages all_data
    rule: collect_pages_induct')
  case (1 s url data_key page_size page total_pages all_data)
  let ?mr = "make_request s url (Some (page, page_size)) default_max_retries"
  show ?case
  proof (cases "page_step data_key page total_pages (result_of ?mr)")
    case Failed
    then show ?thesis by (simp add: collect_pages_unfold Let_def)
  next
    case (Raised err e)
    from page_step_Raised [OF this, of ERROR]
    obtain d where d: "result_of ?mr = Some d" "page_answers e = []"
      by blast
    have "processable d"
      using "1.prems"(1) Raised d
      by (simp add: collect_pages_unfold Let_def make_request_page_bodies
          no_answers_no_bodies)
    then have False
      using page_step_Raised_processable [of data_key page total_pages d err e]
        Raised d(1) "1.prems"(2) by simp
    then show ?thesis ..
  next
    case (NoData e)
    then show ?thesis by (simp add: collect_pages_unfold Let_def)
  next
    case (LastPage its e)
    then show ?thesis by (simp add: collect_pages_unfold Let_def)
  next
    case (MorePages last_page its e)
    let ?r = "collect_pages (state_of ?mr) url data_key page_size (page + 1) last_page
                (all_data @ its)"
    from page_step_MorePages [OF MorePages, of ERROR]
    obtain d where d: "result_of ?mr = Some d" "page_answers e = []"
      by blast
    have rest: "list_all processable (page_bodies (events_of ?r))"
      using "1.prems"(1) MorePages d
      by (simp add: collect_pages_unfold Let_def make_request_page_bodies
          no_answers_no_bodies)
    have "comparable last_page"
      using MorePages by (rule page_step_MorePages_comparable)
    then have "\<not> isl (result_of ?r)"
      using "1.IH" [OF MorePages rest] by simp
    then show ?thesis
      using MorePages by (simp add: collect_pages_unfold Let_def)
  qed
qed

text \<open>A first page that reports no records ends the loop.\<close>

lemma page_step_reports_nothing:
  assumes "reports_nothing d"
  shows "\<exists>total_count last_page.
           page_step data_key 1 total_pages (Some d) =
             NoData [Log INFO (Totals data_key total_count last_page),
                     Log WARNING (NoRecords data_key)]"
  using assms
  by (cases d)
     (auto simp: reports_nothing_def page_step_def got_def page_totals_def Let_def)

text \<open>A request that is answered at once, on a collector that holds a CSRF token.\<close>

lemma make_request_answered:
  assumes "truthy_str (csrf_token s)" and "0 < max_retries"
    and "remote s = out # world" and "classify out = Returned d"
  shows "make_request s url params max_retries =
           (Some d, s\<lparr>remote := world\<rparr>,
            [Http \<lparr>req_method = GET, req_url = url, req_params = params,
                   req_authorization = session_authorization s,
                   req_csrf = csrf_token s, req_form = []\<rparr> out])"
proof -
  have ready: "ensure_csrf s = (s, [])"
    using assms(1) by (simp add: ensure_csrf_def)
  have out: "result_of (api_get s url params) = out"
    using assms(3) by (simp add: api_get_result)
  have "request_loop s url params max_retries 0 =
      (Some d, state_of (api_get s url params), events_of (api_get s url params))"
    using assms(2,4) out by (simp add: request_loop_returned)
  then show ?thesis
    using ready out assms(1,3)
    by (simp add: make_request_unfold Let_def api_get_state api_get_events)
qed

text \<open>A request that meets nothing but an exhausted remote side, on a collector that holds a CSRF token.\<close>

lemma make_request_unanswered:
  assumes "truthy_str (csrf_token s)" and "remote s = []"
  shows "result_of (make_request s url params default_max_retries) = None"
    and "remote (state_of (make_request s url params default_max_retries)) = []"
    and "csrf_token (state_of (make_request s url params default_max_retries)) = csrf_token s"
    and "page_answers (events_of (make_request s url params default_max_retries)) = []"
proof -
  have ready: "ensure_csrf s = (s, [])"
    using assms(1) by (simp add: ensure_csrf_def)
  have out: "result_of (api_get t url params) = RaiseOther" if "remote t = []" for t
    using that by (simp add: api_get_result)
  have cls: "classify RaiseOther = Failure OtherError"
    by (simp add: classify_def)
  have h: "handle_failure t url a OtherError = (t, [Log WARNING (AttemptFailed (a + 1) url)])"
    for t a
    by (simp add: handle_failure_def)
  have st: "state_of (api_get t url params) = t" if "remote t = []" for t
    using that by (simp add: api_get_state)
  have loop: "request_loop s url params 3 0 =
      (None, count_error s,
       events_of (api_get s url params) @ [Log WARNING (AttemptFailed 1 url)]
       @ Sleep 1 # events_of (api_get s url params) @ [Log WARNING (AttemptFailed 2 url)]
       @ Sleep 2 # events_of (api_get s url params) @ [Log WARNING (AttemptFailed 3 url)])"
    using assms(2) out [OF assms(2)] st [OF assms(2)] cls
    by (simp add: request_loop_retry [where f = OtherError]
        request_loop_give_up [where f = OtherError] Let_def h)
  show "result_of (make_request s url params default_max_retries) = None"
    using loop ready by (simp add: make_request_unfold Let_def default_max_retries_def)
  show "remote (state_of (make_request s url params default_max_retries)) = []"
    using loop ready assms(2)
    by (simp add: make_request_unfold Let_def default_max_retries_def count_error_def)
  show "csrf_token (state_of (make_request s url params default_max_retries)) = csrf_token s"
    using loop ready
    by (simp add: make_request_unfold Let_def default_max_retries_def count_error_def)
  show "page_answers (events_of (make_request s url params default_max_retries)) = []"
    using loop ready out [OF assms(2)] cls
    by (simp add: make_request_unfold Let_def default_max_retries_def api_get_events
        split: option.split)
qed


section \<open>\<^verbatim>\<open>collect_paginated_data\<close>\<close>

lemma collect_paginated_data_unfold:
  "collect_paginated_data s endpoint data_key page_size =
     (let r = collect_pages s (base_url s @ endpoint) data_key page_size 1 JNull []
      in case result_of r of
           Inl err \<Rightarrow> (Inl err, state_of r, Log INFO (CollectStart data_key) # events_of r)
         | Inr all_data \<Rightarrow>
             (Inr all_data, state_of r,
              Log INFO (CollectStart data_key) # events_of r
                @ [Log INFO (CollectDone data_key (length all_data))]))"
  by (simp add: collect_paginated_data_def case_prod_beta Let_def)

lemma collect_paginated_data_proj:
  "result_of (collect_paginated_data s endpoint data_key page_size) =
     result_of (collect_pages s (base_url s @ endpoint) data_key page_size 1 JNull [])"
  "state_of (collect_paginated_data s endpoint data_key page_size) =
     state_of (collect_pages s (base_url s @ endpoint) data_key page_size 1 JNull [])"
  "page_answers (events_of (collect_paginated_data s endpoint data_key page_size)) =
     page_answers (events_of (collect_pages s (base_url s @ endpoint) data_key page_size 1 JNull []))"
  "page_bodies (events_of (collect_paginated_data s endpoint data_key page_size)) =
     page_bodies (events_of (collect_pages s (base_url s @ endpoint) data_key page_size 1 JNull []))"
  "page_requests (events_of (collect_paginated_data s endpoint data_key page_size)) =
     page_requests (events_of (collect_pages s (base_url s @ endpoint) data_key page_size 1 JNull []))"
  "requests (events_of (collect_paginated_data s endpoint data_key page_size)) =
     requests (events_of (collect_pages s (base_url s @ endpoint) data_key page_size 1 JNull []))"
  "page_failures lvl (events_of (collect_paginated_data s endpoint data_key page_size)) =
     page_failures lvl (events_of (collect_pages s (base_url s @ endpoint) data_key page_size 1 JNull []))"
  "written (events_of (collect_paginated_data s endpoint data_key page_size)) =
     written (events_of (collect_pages s (base_url s @ endpoint) data_key page_size 1 JNull []))"
  by (simp_all add: collect_paginated_data_unfold Let_def page_bodies_def split: sum.split)

text \<open>A request that meets a TLS failure at once, on a collector that holds a CSRF token.\<close>

lemma make_request_tls_failure:
  assumes "truthy_str (csrf_token s)" and "0 < max_retries" and "remote s = RaiseSSL # world"
  shows "make_request s url params max_retries =
           (None, s\<lparr>remote := world\<rparr>,
            Http \<lparr>req_method = GET, req_url = url, req_params = params,
                  req_authorization = session_authorization s,
                  req_csrf = csrf_token s, req_form = []\<rparr> RaiseSSL
              # tls_log s)"
proof -
  have ready: "ensure_csrf s = (s, [])"
    using assms(1) by (simp add: ensure_csrf_def)
  have out: "result_of (api_get s url params) = RaiseSSL"
    using assms(3) by (simp add: api_get_result)
  have "request_loop s url params max_retries 0 =
      (None, state_of (api_get s url params),
       events_of (api_get s url params) @ tls_log (state_of (api_get s url params)))"
    using assms(2) out by (simp add: request_loop_tls classify_def)
  then show ?thesis
    using ready out assms(1,3)
    by (simp add: make_request_unfold Let_def api_get_state api_get_events tls_log_def)
qed

text \<open>On a body whose \<^verbatim>\<open>items\<close> field is a list, the collector takes the elements of that list.\<close>

lemma listed_items: "listed d \<Longrightarrow> taken_items d = items_of d"
  by (cases d)
     (auto simp: listed_def taken_items_def items_of_def page_items_def dict_get_def
        split: option.splits json.splits)

lemma listed_bodies: "list_all listed ds \<Longrightarrow> map taken_items ds = map items_of ds"
  by (induction ds) (simp_all add: listed_items)

text \<open>The definitions by which a sample run is computed.\<close>

lemmas eval_defs =
  site_with_token_def site_def refuse_def accept_def answer_def envelope_def
  record_named_def zero_stats_def contents_endpoint_def
  two_pages_def second_page_lost_def nothing_there_def odd_first_page_def
  bad_certificate_def silent_def
  send_def session_get_def api_get_def classify_def ensure_csrf_def make_request_def
  request_loop.simps default_max_retries_def handle_failure_def count_error_def tls_log_def
  got_def page_step_def page_totals_def page_items_def dict_get_def Let_def
  collect_pages.simps collect_paginated_data_def


section \<open>The files written\<close>

























section \<open>The attempts of a call and the sleeps between them\<close>




















section \<open>The Authorization header\<close>

text \<open>
  Basic authentication installs the header when the credentials can be encoded in
  ASCII, whatever the probe brings; otherwise it fails before touching the session.
\<close>

lemma try_basic_auth_header:
  assumes "encodable s"
  shows "session_authorization (state_of (try_basic_auth s)) = Some (basic_header s)"
    and "credentials_sent (events_of (try_basic_auth s)) = [Some (basic_header s)]"
  using assms
  by (simp_all add: encodable_def try_basic_auth_def encode_ascii_def basic_header_def Let_def
      case_prod_beta io_simps split: option.split outcome.split if_splits)

lemma try_basic_auth_unencodable:
  "encode_ascii (opt_str (username s) @ '':'' @ opt_str (password s)) = None \<Longrightarrow>
   try_basic_auth s = (False, s, [Log INFO (Trying BasicAuth)])"
  by (simp add: try_basic_auth_def)

text \<open>The other strategies send what the session holds; only a successful OAuth2 changes it, to a bearer token.\<close>

lemma confirm_login_credentials:
  "list_all (\<lambda>a. a = session_authorization s) (credentials_sent (events_of (confirm_login s lr)))"
  by (simp add: confirm_login_def Let_def case_prod_beta io_simps
      split: option.split outcome.split)

lemma submit_login_credentials:
  "list_all (\<lambda>a. a = session_authorization s) (credentials_sent (events_of (submit_login s form)))"
  using confirm_login_credentials [of "s\<lparr>remote := tl (remote s)\<rparr>"]
  by (simp add: submit_login_def Let_def case_prod_beta io_simps
      split: option.split outcome.split)

lemma try_web_login_credentials:
  "list_all (\<lambda>a. a = session_authorization s) (credentials_sent (events_of (try_web_login s)))"
proof -
  have "list_all (\<lambda>a. a = session_authorization s)
          (credentials_sent (events_of
             (submit_login (keep_page_csrf (s\<lparr>remote := tl (remote s)\<rparr>) r) form)))" for r form
    using submit_login_credentials [of "keep_page_csrf (s\<lparr>remote := tl (remote s)\<rparr>) r" form]
    by (simp add: keep_page_csrf_def Let_def split: if_splits)
  then show ?thesis
    by (simp add: try_web_login_def Let_def case_prod_beta io_simps
        split: option.split outcome.split)
qed

lemma try_jsonws_login_credentials:
  "list_all (\<lambda>a. a = session_authorization s)
     (credentials_sent (events_of (try_jsonws_login s)))"
  by (simp add: try_jsonws_login_def Let_def case_prod_beta io_simps
      split: option.split outcome.split)

lemma try_oauth2_credentials:
  "list_all (\<lambda>a. a = session_authorization s) (credentials_sent (events_of (try_oauth2 s)))"
  by (simp add: try_oauth2_def Let_def case_prod_beta io_simps
      split: option.split outcome.split json.split)

lemma try_oauth2_header:
  "session_authorization (state_of (try_oauth2 s)) =
     (if result_of (try_oauth2 s)
      then Some (''Bearer '' @ drop 7 (the (session_authorization (state_of (try_oauth2 s)))))
      else session_authorization s)"
  by (simp add: try_oauth2_def Let_def case_prod_beta io_simps
      split: option.split outcome.split json.split)

lemma bearer_carries: "carries_credential s (Some (''Bearer '' @ t))"
  by (simp add: carries_credential_def)

lemma basic_carries: "carries_credential s (Some (basic_header s))"
  by (simp add: carries_credential_def)

lemma basic_header_cong:
  "username t = username s \<Longrightarrow> password t = password s \<Longrightarrow> basic_header t = basic_header s"
  by (simp add: basic_header_def)

lemma carries_credential_cong:
  "username t = username s \<Longrightarrow> password t = password s \<Longrightarrow>
   carries_credential t = carries_credential s"
  using basic_header_cong [of t s]
  by (auto simp: carries_credential_def fun_eq_iff split: option.splits)

text \<open>A run of the strategies, on credentials that can be encoded in ASCII.\<close>

lemma authenticate_comprehensive_header:
  assumes "encodable s"
  shows "let r1 = try_basic_auth s;
             r2 = try_web_login (state_of r1);
             r3 = try_jsonws_login (state_of r2);
             r4 = try_oauth2 (state_of r3)
         in session_authorization (fst (authenticate_comprehensive s)) =
              (if \<not> result_of r1 \<and> \<not> result_of r2 \<and> \<not> result_of r3 \<and> result_of r4
               then session_authorization (state_of r4) else Some (basic_header s))"
    and "carries_credential s (session_authorization (fst (authenticate_comprehensive s)))"
    and "list_all (\<lambda>a. a = Some (basic_header s))
           (credentials_sent (snd (authenticate_comprehensive s)))"
proof -
  let ?r1 = "try_basic_auth s"
  let ?r2 = "try_web_login (state_of ?r1)"
  let ?r3 = "try_jsonws_login (state_of ?r2)"
  let ?r4 = "try_oauth2 (state_of ?r3)"
  have h1: "session_authorization (state_of ?r1) = Some (basic_header s)"
    and c1: "credentials_sent (events_of ?r1) = [Some (basic_header s)]"
    using assms by (rule try_basic_auth_header)+
  have h2: "session_authorization (state_of ?r2) = Some (basic_header s)"
    by (simp add: try_web_login_frame h1)
  have h3: "session_authorization (state_of ?r3) = Some (basic_header s)"
    by (simp add: try_jsonws_login_frame h2)
  have c2: "list_all (\<lambda>a. a = Some (basic_header s)) (credentials_sent (events_of ?r2))"
    using try_web_login_credentials [of "state_of ?r1"] by (simp add: h1)
  have c3: "list_all (\<lambda>a. a = Some (basic_header s)) (credentials_sent (events_of ?r3))"
    using try_jsonws_login_credentials [of "state_of ?r2"] by (simp add: h2)
  have c4: "list_all (\<lambda>a. a = Some (basic_header s)) (credentials_sent (events_of ?r4))"
    using try_oauth2_credentials [of "state_of ?r3"] by (simp add: h3)
  have h4: "carries_credential s (session_authorization (state_of ?r4))"
    by (subst try_oauth2_header) (simp add: h3 carries_credential_def)
  have h4': "\<not> result_of ?r4 \<Longrightarrow> session_authorization (state_of ?r4) = Some (basic_header s)"
    by (subst try_oauth2_header) (simp add: h3)
  show "let r1 = try_basic_auth s;
            r2 = try_web_login (state_of r1);
            r3 = try_jsonws_login (state_of r2);
            r4 = try_oauth2 (state_of r3)
        in session_authorization (fst (authenticate_comprehensive s)) =
             (if \<not> result_of r1 \<and> \<not> result_of r2 \<and> \<not> result_of r3 \<and> result_of r4
              then session_authorization (state_of r4) else Some (basic_header s))"
    using h1 h2 h3 h4'
    by (simp add: authenticate_comprehensive_def Let_def case_prod_beta)
  show "carries_credential s (session_authorization (fst (authenticate_comprehensive s)))"
    using h1 h2 h3 h4
    by (simp add: authenticate_comprehensive_def Let_def case_prod_beta basic_carries)
  show "list_all (\<lambda>a. a = Some (basic_header s))
          (credentials_sent (snd (authenticate_comprehensive s)))"
    using c1 c2 c3 c4
    by (simp add: authenticate_comprehensive_def Let_def case_prod_beta)
qed

text \<open>
  The invariant of the requests: the session holds the Basic credential or a bearer
  token, and every request sent carries what the session holds.
\<close>


lemma encodable_cong:
  "username t = username s \<Longrightarrow> password t = password s \<Longrightarrow> encodable t = encodable s"
  by (simp add: encodable_def)

lemma sent_basic_carries:
  "list_all (\<lambda>a. a = Some (basic_header s)) xs \<Longrightarrow> list_all (carries_credential s) xs"
  by (induction xs) (simp_all add: basic_carries)

lemma sent_held_carries:
  "carries_credential s h \<Longrightarrow> list_all (\<lambda>a. a = h) xs \<Longrightarrow> list_all (carries_credential s) xs"
  by (induction xs) simp_all

lemma reauthenticate_credentialed:
  assumes "encodable s" and "credentialed s t"
  shows "credentialed s (fst (reauthenticate t))"
    and "list_all (carries_credential s) (credentials_sent (snd (reauthenticate t)))"
proof -
  have same: "username t = username s" "password t = password s"
    using assms(2) by (simp_all add: credentialed_def)
  have enc: "encodable t"
    using assms(1) by (simp add: encodable_cong [OF same])
  note auth = authenticate_comprehensive_header(2,3) [OF enc]
  have held: "carries_credential s (session_authorization (fst (authenticate_comprehensive t)))"
    using auth(1) by (simp add: carries_credential_cong [OF same])
  have sent: "list_all (carries_credential s)
                (credentials_sent (snd (authenticate_comprehensive t)))"
    using auth(2) by (simp add: basic_header_cong [OF same] sent_basic_carries)
  show "credentialed s (fst (reauthenticate t))"
    using assms(2) held
    by (simp add: reauthenticate_def case_prod_beta credentialed_def
        authenticate_comprehensive_frame)
  show "list_all (carries_credential s) (credentials_sent (snd (reauthenticate t)))"
    using sent by (simp add: reauthenticate_def case_prod_beta)
qed

lemma handle_failure_credentialed:
  assumes "encodable s" and "credentialed s t"
  shows "credentialed s (fst (handle_failure t url attempt f))"
    and "list_all (carries_credential s) (credentials_sent (snd (handle_failure t url attempt f)))"
  using assms reauthenticate_credentialed [OF assms]
  by (simp_all add: handle_failure_def case_prod_beta split: failure.split)

lemma api_get_credentialed:
  assumes "credentialed s t"
  shows "credentialed s (state_of (api_get t url params))"
    and "list_all (carries_credential s) (credentials_sent (events_of (api_get t url params)))"
  using assms by (simp_all add: api_get_state api_get_events credentialed_def)

lemma count_error_credentialed: "credentialed s t \<Longrightarrow> credentialed s (count_error t)"
  by (simp add: credentialed_def count_error_def)

lemma request_loop_credentialed:
  "encodable s \<Longrightarrow> credentialed s t \<Longrightarrow>
   credentialed s (state_of (request_loop t url params max_retries attempt))
   \<and> list_all (carries_credential s)
        (credentials_sent (events_of (request_loop t url params max_retries attempt)))"
proof (induction t attempt
    rule: request_loop_induct' [where max_retries = max_retries and url = url
      and params = params])
  case (finished t attempt)
  then show ?case by (simp add: request_loop_done)
next
  case (returned t attempt d)
  then show ?case
    using api_get_credentialed [of s t url params]
    by (simp add: request_loop_returned)
next
  case (tls t attempt)
  then show ?case
    using api_get_credentialed [of s t url params]
    by (simp add: request_loop_tls tls_log_def)
next
  case (retry t attempt f)
  let ?t1 = "state_of (api_get t url params)"
  let ?h = "handle_failure ?t1 url attempt f"
  note a = api_get_credentialed [OF retry.prems(2), of url params]
  note h = handle_failure_credentialed [OF retry.prems(1) a(1), of url attempt f]
  note ih = retry.IH [OF retry.prems(1) h(1)]
  show ?case
    using retry(1,2) a h ih by (simp add: request_loop_retry Let_def)
next
  case (give_up t attempt f)
  let ?t1 = "state_of (api_get t url params)"
  note a = api_get_credentialed [OF give_up.prems(2), of url params]
  note h = handle_failure_credentialed [OF give_up.prems(1) a(1), of url attempt f]
  show ?case
    using give_up(1,2,3) a h
    by (simp add: request_loop_give_up Let_def count_error_credentialed)
qed

lemma ensure_csrf_credentialed:
  assumes "credentialed s t"
  shows "credentialed s (fst (ensure_csrf t))"
    and "list_all (carries_credential s) (credentials_sent (snd (ensure_csrf t)))"
proof -
  show "credentialed s (fst (ensure_csrf t))"
    using assms by (simp add: credentialed_def ensure_csrf_frame)
  have "carries_credential s (session_authorization t)"
    using assms by (simp add: credentialed_def)
  then have "list_all (carries_credential s)
               (credentials_sent (snd (csrf_scan t (csrf_sources t))))"
    by (rule sent_held_carries) (rule csrf_scan_credentials)
  then show "list_all (carries_credential s) (credentials_sent (snd (ensure_csrf t)))"
    by (simp add: ensure_csrf_def find_csrf_token_def)
qed

lemma make_request_credentialed:
  assumes "encodable s" and "credentialed s t"
  shows "credentialed s (state_of (make_request t url params max_retries))"
    and "list_all (carries_credential s)
           (credentials_sent (events_of (make_request t url params max_retries)))"
proof -
  note e = ensure_csrf_credentialed [OF assms(2)]
  note l = request_loop_credentialed [OF assms(1) e(1), of url params max_retries 0]
  show "credentialed s (state_of (make_request t url params max_retries))"
    using l by (simp add: make_request_unfold Let_def)
  show "list_all (carries_credential s)
          (credentials_sent (events_of (make_request t url params max_retries)))"
    using e(2) l by (simp add: make_request_unfold Let_def)
qed

lemma authenticate_comprehensive_credentialed:
  "encodable s \<Longrightarrow> credentialed s (fst (authenticate_comprehensive s))"
  by (simp add: credentialed_def authenticate_comprehensive_frame
      authenticate_comprehensive_header(2))

section \<open>The order of the authentication strategies\<close>

text \<open>
  Claim C3. \<^verbatim>\<open>authenticate_comprehensive\<close> tries Basic-Auth, the web login, the
  JSON-WS login and OAuth2 in this order and stops at the first that succeeds: the
  strategies tried are exactly those up to and including the first success, each once,
  and all four when none succeeds. When none succeeds the only trace is one warning (no
  error is logged); the function has no exceptional outcome, so it returns normally in
  every case.
\<close>

theorem authenticate_comprehensive_order:
  "let r1 = try_basic_auth s;
       r2 = try_web_login (state_of r1);
       r3 = try_jsonws_login (state_of r2);
       r4 = try_oauth2 (state_of r3);
       es = snd (authenticate_comprehensive s)
   in attempted es =
        (if result_of r1 then [BasicAuth]
         else if result_of r2 then [BasicAuth, WebLogin]
         else if result_of r3 then [BasicAuth, WebLogin, JsonWS]
         else [BasicAuth, WebLogin, JsonWS, OAuth2])
      \<and> logged WARNING es =
        (if result_of r1 \<or> result_of r2 \<or> result_of r3 \<or> result_of r4 then []
         else [NoStrategyWorked])
      \<and> logged ERROR es = []"
  by (simp add: authenticate_comprehensive_def Let_def case_prod_beta
      strategy_attempted strategy_logged)


text \<open>Only the third strategy succeeds: the first two were tried once each before it, and there is no warning.\<close>

lemmas run_defs =
  site_def refuse_def accept_def zero_stats_def send_def session_get_def session_post_def
  try_basic_auth_def confirm_login_def submit_login_def try_web_login_def
  try_jsonws_login_def try_oauth2_def authenticate_comprehensive_def
  confirmed_user_def current_user_url_def login_url_def login_data_def keep_page_csrf_def
  first_match_def encode_ascii_def opt_str_def b64_sym_def

theorem authenticate_comprehensive_order_witness:
  "attempted (snd (authenticate_comprehensive (site [Resp refuse, Resp refuse, Resp accept])))
     = [BasicAuth, WebLogin, JsonWS]
   \<and> logged WARNING (snd (authenticate_comprehensive (site [Resp refuse, Resp refuse, Resp accept])))
     = []"
  using authenticate_comprehensive_order [of "site [Resp refuse, Resp refuse, Resp accept]"]
  by (simp add: Let_def run_defs)


section \<open>Re-authentication on 401 and 403\<close>


section \<open>Back-off and exhaustion of the retries\<close>



section \<open>The result of a paginated collection\<close>

text \<open>
  Claim C1, as amended. The bodies that come back to \<^verbatim>\<open>collect_paginated_data\<close> are
  those of pages 1, 2, 3, ... in this order. When the function returns, and the \<^verbatim>\<open>items\<close>
  field of each body is a list, it returns the elements of these lists, page after
  page and in the order they have within each page,
  so that the length of the result is the sum of the item counts of the bodies; the
  one exception is a first page that reports no records (\<^verbatim>\<open>totalCount\<close> zero or absent),
  after which the result is empty whatever items that page carries. On bodies that can
  be processed the function does return. When the last page asked for brings no usable
  body, the collection stops with what it has, and that page is named in one log record
  of level ERROR (not in a warning); otherwise no page is reported as failed.
\<close>

theorem paginated_collection_result:
  "let r = collect_paginated_data s endpoint data_key page_size;
       bodies = page_bodies (events_of r);
       asked = map fst (page_requests (events_of r))
   in map fst (page_answers (events_of r)) = [1 ..< 1 + length bodies]
      \<and> (result_of r = Inr items \<longrightarrow> list_all listed bodies \<longrightarrow>
           items = (if no_records bodies then [] else concat (map items_of bodies))
           \<and> length items =
               (if no_records bodies then 0 else sum_list (map (\<lambda>d. length (items_of d)) bodies)))
      \<and> (list_all processable bodies \<longrightarrow> \<not> isl (result_of r))
      \<and> asked \<noteq> []
      \<and> page_failures lvl (events_of r) =
          (if lvl = ERROR \<and> length (filter truthy bodies) < last asked
           then [(data_key, last asked)] else [])"
proof -
  let ?c = "collect_pages s (base_url s @ endpoint) data_key page_size 1 JNull []"
  let ?bodies = "page_bodies (events_of ?c)"
  let ?asked = "map fst (page_requests (events_of ?c))"
  have order: "map fst (page_answers (events_of ?c)) = [1 ..< 1 + length ?bodies]"
    using collect_pages_answers [of s "base_url s @ endpoint" data_key page_size 1 JNull "[]"]
    by (simp add: page_bodies_def)
  have items: "result_of ?c = Inr items \<longrightarrow> list_all listed ?bodies \<longrightarrow>
      items = (if no_records ?bodies then [] else concat (map items_of ?bodies))
      \<and> length items =
          (if no_records ?bodies then 0 else sum_list (map (\<lambda>d. length (items_of d)) ?bodies))"
  proof (intro impI)
    assume res: "result_of ?c = Inr items" and lists: "list_all listed ?bodies"
    have "items = (if no_records ?bodies then [] else concat (map taken_items ?bodies))"
      using collect_pages_items [OF _ res] by simp
    then have eq: "items = (if no_records ?bodies then [] else concat (map items_of ?bodies))"
      unfolding listed_bodies [OF lists] .
    moreover have "length items =
        (if no_records ?bodies then 0 else sum_list (map (\<lambda>d. length (items_of d)) ?bodies))"
      by (subst eq) (simp add: length_concat comp_def)
    ultimately show "items = (if no_records ?bodies then [] else concat (map items_of ?bodies))
      \<and> length items =
          (if no_records ?bodies then 0 else sum_list (map (\<lambda>d. length (items_of d)) ?bodies))"
      by (rule conjI)
  qed
  have returns: "list_all processable ?bodies \<longrightarrow> \<not> isl (result_of ?c)"
    using collect_pages_returns [of s "base_url s @ endpoint" data_key page_size 1 JNull "[]"]
    by simp
  have report: "?asked \<noteq> []
      \<and> page_failures lvl (events_of ?c) =
          (if lvl = ERROR \<and> length (filter truthy ?bodies) < last ?asked
           then [(data_key, last ?asked)] else [])"
    using collect_pages_failures
      [of s "base_url s @ endpoint" data_key page_size 1 JNull "[]" lvl]
    by (auto simp: less_eq_Suc_le)
  show ?thesis
    using order items returns report
    unfolding Let_def collect_paginated_data_proj by blast
qed

text \<open>
  Three records on two pages come back in order; when the second page is never
  answered, the two records of the first page are returned and page 2 is reported at
  the level ERROR.
\<close>

theorem paginated_collection_result_witness:
  "result_of (collect_paginated_data two_pages contents_endpoint KStructuredContents 20)
     = Inr [record_named ''a'', record_named ''b'', record_named ''c'']
   \<and> list_all processable
       (page_bodies (events_of
          (collect_paginated_data two_pages contents_endpoint KStructuredContents 20)))
   \<and> list_all listed
       (page_bodies (events_of
          (collect_paginated_data two_pages contents_endpoint KStructuredContents 20)))
   \<and> [record_named ''a'', record_named ''b'', record_named ''c'']
       = concat (map items_of (page_bodies (events_of
           (collect_paginated_data two_pages contents_endpoint KStructuredContents 20))))
   \<and> map fst (page_answers (events_of
         (collect_paginated_data two_pages contents_endpoint KStructuredContents 20)))
       = [1, 2]
   \<and> page_failures ERROR (events_of
         (collect_paginated_data two_pages contents_endpoint KStructuredContents 20)) = []
   \<and> result_of (collect_paginated_data second_page_lost contents_endpoint KStructuredContents 20)
       = Inr [record_named ''a'', record_named ''b'']
   \<and> page_failures ERROR (events_of
         (collect_paginated_data second_page_lost contents_endpoint KStructuredContents 20))
       = [(KStructuredContents, 2)]"
proof -
  let ?r = "collect_paginated_data two_pages contents_endpoint KStructuredContents 20"
  let ?q = "collect_paginated_data second_page_lost contents_endpoint KStructuredContents 20"
  have res: "result_of ?r = Inr [record_named ''a'', record_named ''b'', record_named ''c'']"
    by (simp add: eval_defs)
  have bodies: "page_bodies (events_of ?r) =
      [envelope 3 2 [record_named ''a'', record_named ''b''],
       envelope 3 2 [record_named ''c'']]"
    by (simp add: eval_defs)
  have ok: "list_all processable (page_bodies (events_of ?r))"
    unfolding bodies
    by (simp add: processable_def iterable_def comparable_def envelope_def dict_get_def)
  have lists: "list_all listed (page_bodies (events_of ?r))"
    unfolding bodies by (simp add: listed_def envelope_def)
  have some: "\<not> no_records (page_bodies (events_of ?r))"
    unfolding bodies
    by (simp add: no_records_def reports_nothing_def envelope_def dict_get_def)
  have asked: "map fst (page_requests (events_of ?r)) = [1, 2]"
    by (simp add: eval_defs)
  have res': "result_of ?q = Inr [record_named ''a'', record_named ''b'']"
    by (simp add: eval_defs)
  have bodies': "page_bodies (events_of ?q) =
      [envelope 3 2 [record_named ''a'', record_named ''b'']]"
    by (simp add: eval_defs)
  have asked': "map fst (page_requests (events_of ?q)) = [1, 2, 2, 2]"
    by (simp add: eval_defs)
  have up: "[1 ..< 1 + length [x, y]] = [1, 2 :: nat]" for x y :: json
    by (simp add: upt_rec)
  show ?thesis
    using paginated_collection_result
            [of two_pages contents_endpoint KStructuredContents 20
                "[record_named ''a'', record_named ''b'', record_named ''c'']" ERROR]
          paginated_collection_result
            [of second_page_lost contents_endpoint KStructuredContents 20
                "[record_named ''a'', record_named ''b'']" ERROR]
          res ok lists some res'
    unfolding Let_def asked asked'
    by (simp add: bodies bodies' up envelope_def)
qed

text \<open>
  The claim as it was stated fails on two counts. A first page that reports no records
  and yet carries one item is a body the collector got, with an item count of one,
  while the result has length zero. And a page that fails is named in a record of
  level ERROR; no warning names it.
\<close>

theorem paginated_collection_result_counterexample:
  "result_of (collect_paginated_data odd_first_page contents_endpoint KStructuredContents 20)
     = Inr []
   \<and> page_bodies (events_of
         (collect_paginated_data odd_first_page contents_endpoint KStructuredContents 20))
       = [envelope 0 1 [record_named ''x'']]
   \<and> length (items_of (envelope 0 1 [record_named ''x''])) = 1
   \<and> page_failures WARNING (events_of
         (collect_paginated_data silent contents_endpoint KStructuredContents 20)) = []
   \<and> page_failures ERROR (events_of
         (collect_paginated_data silent contents_endpoint KStructuredContents 20))
       = [(KStructuredContents, 1)]"
  by (simp add: eval_defs items_of_def)


section \<open>A first page that reports no records\<close>

text \<open>
  Claim C2. When the request for page 1 brings back a body that reports no records
  (\<^verbatim>\<open>totalCount\<close> equal to 0), \<^verbatim>\<open>collect_paginated_data\<close> returns the empty list, sends no
  request beyond those of that one call for page 1, and counts no error; no page is
  reported as failed.
\<close>

theorem no_records_stops_collection:
  assumes "result_of (make_request s (base_url s @ endpoint) (Some (1, page_size))
                        default_max_retries) = Some d"
    and "reports_nothing d"
  shows "result_of (collect_paginated_data s endpoint data_key page_size) = Inr []
       \<and> requests (events_of (collect_paginated_data s endpoint data_key page_size))
           = requests (events_of (make_request s (base_url s @ endpoint) (Some (1, page_size))
                                    default_max_retries))
       \<and> list_all (\<lambda>q. q = (1, page_size))
           (page_requests (events_of (collect_paginated_data s endpoint data_key page_size)))
       \<and> errors (stats (state_of (collect_paginated_data s endpoint data_key page_size)))
           = errors (stats s)
       \<and> page_failures lvl (events_of (collect_paginated_data s endpoint data_key page_size))
           = []"
proof -
  let ?mr = "make_request s (base_url s @ endpoint) (Some (1, page_size)) default_max_retries"
  let ?c = "collect_pages s (base_url s @ endpoint) data_key page_size 1 JNull []"
  from page_step_reports_nothing [OF assms(2), of data_key JNull]
  obtain total_count last_page where
    step: "page_step data_key 1 JNull (Some d) =
             NoData [Log INFO (Totals data_key total_count last_page),
                     Log WARNING (NoRecords data_key)]"
    by blast
  have c: "?c = (Inr [], state_of ?mr,
                 events_of ?mr @ [Log INFO (Totals data_key total_count last_page),
                                  Log WARNING (NoRecords data_key)])"
    using step assms(1) by (simp add: collect_pages_unfold Let_def)
  have "got (result_of ?mr)"
    using assms by (simp add: got_def reports_nothing_def)
  then have err: "errors (stats (state_of ?mr)) = errors (stats s)"
    by (rule make_request_errors_got)
  have pr: "list_all (\<lambda>q. q = (1, page_size)) (page_requests (events_of ?mr))"
    by (rule make_request_page_requests)
  have pf: "page_failures lvl (events_of ?mr) = []"
    by (rule make_request_page_failures)
  show ?thesis
    unfolding collect_paginated_data_proj c
    using err pr pf
    by (simp del: One_nat_def)
qed

text \<open>An endpoint whose first page reports zero records: nothing is returned, one request is sent, no error is counted.\<close>

theorem no_records_stops_collection_witness:
  "result_of (make_request nothing_there (base_url nothing_there @ contents_endpoint)
                (Some (1, 20)) default_max_retries) = Some (envelope 0 1 [])
   \<and> reports_nothing (envelope 0 1 [])
   \<and> result_of (collect_paginated_data nothing_there contents_endpoint KStructuredContents 20)
       = Inr []
   \<and> length (requests (events_of
         (collect_paginated_data nothing_there contents_endpoint KStructuredContents 20))) = 1
   \<and> errors (stats (state_of
         (collect_paginated_data nothing_there contents_endpoint KStructuredContents 20))) = 0"
proof -
  have one: "result_of (make_request nothing_there (base_url nothing_there @ contents_endpoint)
                (Some (1, 20)) default_max_retries) = Some (envelope 0 1 [])"
    by (simp add: eval_defs)
  have no_total: "reports_nothing (envelope 0 1 [])"
    by (simp add: reports_nothing_def envelope_def dict_get_def)
  have sent: "length (requests (events_of
      (make_request nothing_there (base_url nothing_there @ contents_endpoint)
         (Some (1, 20)) default_max_retries))) = 1"
    by (simp add: eval_defs)
  have zero: "errors (stats nothing_there) = 0"
    by (simp add: eval_defs)
  show ?thesis
    using no_records_stops_collection [OF one no_total, of KStructuredContents ERROR]
      one no_total sent zero
    by (simp del: One_nat_def)
qed

section \<open>A TLS failure\<close>

text \<open>
  Claim C5 says that a request that meets a TLS failure is not retried, that exactly one
  error is counted, and that the collection of the resource is empty. On a transport
  where every request meets a TLS failure the code sends the one request for page 1,
  does not sleep or retry, logs the failure and returns the empty list, but it counts
  no error: the error counter is still 0 after the collection, while the handlers of
  the other failures count one when they give up.
\<close>

theorem tls_failure_counts_no_error:
  "result_of (collect_paginated_data bad_certificate contents_endpoint KStructuredContents 20)
     = Inr []
   \<and> errors (stats (state_of
         (collect_paginated_data bad_certificate contents_endpoint KStructuredContents 20))) = 0
   \<and> page_requests (events_of
         (collect_paginated_data bad_certificate contents_endpoint KStructuredContents 20))
       = [(1, 20)]
   \<and> sleeps (events_of
         (collect_paginated_data bad_certificate contents_endpoint KStructuredContents 20)) = []
   \<and> logged ERROR (events_of
         (collect_paginated_data bad_certificate contents_endpoint KStructuredContents 20))
       = [SslFailure, PageFailed KStructuredContents 1]
   \<and> errors (stats (state_of
         (collect_paginated_data silent contents_endpoint KStructuredContents 20))) = 1"
  by (simp add: eval_defs)

section \<open>Configuration errors\<close>

text \<open>
  Claim C8 says that when the user name or the password is missing, or no collection is
  selected, the program reports a fatal configuration error before any network
  activity and exits with a nonzero status. In the code the error is reported (the
  first line printed, or the first after the three lines about the credentials, the
  token and TLS) and no request is sent, but \<^verbatim>\<open>main\<close> is left by \<^verbatim>\<open>return\<close>: the exit
  status is 0.
\<close>

theorem configuration_error_exit_status:
  assumes "\<not> truthy_str (arg_username a) \<or> \<not> truthy_str (arg_password a)
           \<or> \<not> list_ex snd (collect_options a)"
  shows "fst (main a world) = 0
       \<and> exchanges (snd (main a world)) = []
       \<and> (PMissingCredentials \<in> set (printed_lines (snd (main a world)))
          \<or> PNothingSelected \<in> set (printed_lines (snd (main a world))))"
  using assms by (auto simp: main_def preamble_def)

text \<open>Without a password, and with nothing selected: two lines or six are printed, and the status is 0.\<close>

theorem configuration_error_exit_status_witness:
  "\<not> truthy_str (arg_password no_password)
   \<and> \<not> list_ex snd (collect_options nothing_selected)
   \<and> main no_password [] = (0, [Print PMissingCredentials, Print PMissingCredentialsHint])
   \<and> fst (main nothing_selected []) = 0
   \<and> exchanges (snd (main nothing_selected [])) = []
   \<and> printed_lines (snd (main nothing_selected []))
       = [PUsingCredentials ''user'', PCsrfAutomatic, PSslOff,
          PNothingSelected, PNothingSelectedHint, PNothingSelectedHelp]"
proof -
  have a: "\<not> truthy_str (arg_password no_password)"
    by (simp add: no_password_def sample_args_def)
  have b: "\<not> list_ex snd (collect_options nothing_selected)"
    by (simp add: nothing_selected_def sample_args_def collect_options_def)
  have c: "main no_password [] = (0, [Print PMissingCredentials, Print PMissingCredentialsHint])"
    by (simp add: main_def no_password_def sample_args_def)
  have d: "printed_lines (snd (main nothing_selected []))
       = [PUsingCredentials ''user'', PCsrfAutomatic, PSslOff,
          PNothingSelected, PNothingSelectedHint, PNothingSelectedHelp]"
    by (simp add: main_def nothing_selected_def sample_args_def collect_options_def
        preamble_def opt_str_def)
  show ?thesis
    using configuration_error_exit_status [of nothing_selected "[]"] a b c d
    by simp
qed

section \<open>The documents of the folders\<close>




section \<open>The summary of a full run\<close>




section \<open>The Basic credential stays on the session\<close>

text \<open>
  Claim C10, for credentials that can be encoded in ASCII. \<^verbatim>\<open>try_basic_auth\<close> installs
  the header \<^verbatim>\<open>Basic <base64(username:password)>\<close> before the probe (the probe carries
  it) and leaves it on the session whatever the probe brings. After
  \<^verbatim>\<open>authenticate_comprehensive\<close> the session holds that header, unless OAuth2 was
  reached and succeeded, when it holds the bearer token; in particular it holds the Basic
  credential when all four strategies failed. From then on every request of a
  \<^verbatim>\<open>make_request\<close> carries the Basic credential or a bearer token, and the session
  still holds one of them afterwards, so that the same is true of the next call.
\<close>

theorem basic_credential_kept:
  assumes "encodable s"
  shows
    "let r1 = try_basic_auth s;
         r2 = try_web_login (state_of r1);
         r3 = try_jsonws_login (state_of r2);
         r4 = try_oauth2 (state_of r3);
         s' = fst (authenticate_comprehensive s)
     in session_authorization (state_of r1) = Some (basic_header s)
        \<and> credentials_sent (events_of r1) = [Some (basic_header s)]
        \<and> session_authorization s' =
            (if \<not> result_of r1 \<and> \<not> result_of r2 \<and> \<not> result_of r3 \<and> result_of r4
             then session_authorization (state_of r4) else Some (basic_header s))
        \<and> credentialed s s'
        \<and> (credentialed s t \<longrightarrow>
             list_all (carries_credential s)
               (credentials_sent (events_of (make_request t url params max_retries)))
             \<and> credentialed s (state_of (make_request t url params max_retries)))"
proof -
  note b = try_basic_auth_header [OF assms]
  note a = authenticate_comprehensive_header(1) [OF assms]
  note c = authenticate_comprehensive_credentialed [OF assms]
  have m: "credentialed s t \<longrightarrow>
             list_all (carries_credential s)
               (credentials_sent (events_of (make_request t url params max_retries)))
             \<and> credentialed s (state_of (make_request t url params max_retries))"
    using make_request_credentialed [OF assms, of t url params max_retries] by blast
  show ?thesis
    using b a c m unfolding Let_def by blast
qed

text \<open>
  The sample credentials, with a remote side that answers nothing: all four strategies
  fail, the session holds the Basic credential, and the five requests of the next call
  (four in search of a CSRF token, then the one attempt) carry it.
\<close>

theorem basic_credential_kept_witness:
  "encodable (site [])
   \<and> basic_header (site []) = ''Basic dXNlcjpwYXNz''
   \<and> session_authorization (fst (authenticate_comprehensive (site [])))
       = Some ''Basic dXNlcjpwYXNz''
   \<and> credentialed (site []) (fst (authenticate_comprehensive (site [])))
   \<and> list_all (carries_credential (site []))
        (credentials_sent (events_of
           (make_request (fst (authenticate_comprehensive (site []))) contents_url
              (Some (1, 20)) 1)))"
proof -
  have enc: "encodable (site [])"
    by (simp add: encodable_def run_defs)
  have hdr: "basic_header (site []) = ''Basic dXNlcjpwYXNz''"
    by (simp add: basic_header_def run_defs)
  have fails: "\<not> result_of (try_oauth2 (state_of (try_jsonws_login (state_of
                   (try_web_login (state_of (try_basic_auth (site [])))))))) "
    by (simp add: run_defs Let_def)
  show ?thesis
    using basic_credential_kept
            [OF enc, of "fst (authenticate_comprehensive (site []))" contents_url
               "Some (1, 20)" 1]
      enc hdr fails
    unfolding Let_def by simp
qed

text \<open>
  The claim as it was stated, for any user name and password, fails on a password with
  a letter outside ASCII: encoding the credentials raises, the exception is caught, and
  Basic authentication fails without installing a header and without a probe. When the
  other strategies fail too, the session has no \<^verbatim>\<open>Authorization\<close> header, and the
  requests that follow carry none.
\<close>

theorem basic_credential_kept_counterexample:
  "try_basic_auth accented = (False, accented, [Log INFO (Trying BasicAuth)])
   \<and> session_authorization (state_of (try_basic_auth accented)) = None
   \<and> requests (events_of (try_basic_auth accented)) = []
   \<and> logged WARNING (snd (authenticate_comprehensive accented)) = [NoStrategyWorked]
   \<and> session_authorization (fst (authenticate_comprehensive accented)) = None
   \<and> credentials_sent (events_of
        (make_request (fst (authenticate_comprehensive accented)) contents_url (Some (1, 20)) 1))
       = [None, None, None, None, None]"
proof -
  have enc: "encode_ascii (opt_str (username accented) @ '':'' @ opt_str (password accented))
               = None"
    by (simp add: accented_def site_def encode_ascii_def opt_str_def)
  have basic: "try_basic_auth accented = (False, accented, [Log INFO (Trying BasicAuth)])"
    using enc by (rule try_basic_auth_unencodable)
  have none: "session_authorization accented = None"
    by (simp add: accented_def site_def)
  have auth: "logged WARNING (snd (authenticate_comprehensive accented)) = [NoStrategyWorked]"
    "session_authorization (fst (authenticate_comprehensive accented)) = None"
    "remote (fst (authenticate_comprehensive accented)) = []"
    "csrf_token (fst (authenticate_comprehensive accented)) = None"
    by (simp_all add: authenticate_comprehensive_def basic Let_def accented_def run_defs
        contains.simps)
  have sent: "credentials_sent (events_of
        (make_request (fst (authenticate_comprehensive accented)) contents_url (Some (1, 20)) 1))
       = [None, None, None, None, None]"
    by (simp add: auth make_request_def ensure_csrf_def find_csrf_token_def csrf_sources_def
        csrf_in_outcome_def send_def session_get_def api_get_def classify_def
        request_loop.simps handle_failure_def count_error_def Let_def)
  show ?thesis
    using basic none auth sent by simp
qed

end
